theory Spec2Isabelle
  imports Complex_Main "HOL-Library.Word" "HOL-Library.Sublist"
begin

section \<open>The streaming audio session core (class LiveService)\<close>

text \<open>
  The repository holds three versions of the class \<^verbatim>\<open>LiveService\<close>:
  \<^verbatim>\<open>src/services/liveService.ts\<close>, \<^verbatim>\<open>src/unnamed/part_000\<close> and
  \<^verbatim>\<open>src/unnamed/part_001\<close>. They share their fields and most of their methods and
  differ in a few guards. Every method below takes the version as its first argument and
  branches on it exactly where the three texts differ.
\<close>

datatype variant = LiveService_ts | Part_000 | Part_001

subsection \<open>JavaScript numbers as far as the PCM encoder needs them\<close>

text \<open>
  An element of a \<^verbatim>\<open>Float32Array\<close> is NaN, an infinity or a finite binary32 value.
  Reading it gives the same value as a double. The finite values are modelled by \<open>real\<close>.
  The encoder applies \<^verbatim>\<open>Math.min\<close>, \<^verbatim>\<open>Math.max\<close> and one multiplication by
  32767. The first two return one of their arguments. The product of a binary32 value
  (24 significant bits, magnitude between \<open>2^-149\<close> and \<open>2^128\<close>) and 32767 (15 bits)
  has at most 39 significant bits and lies inside the range of a double, so the double
  product is the exact real product: on every finite binary32 input the model computes
  the number the code computes. The sign of zero is not kept; the conversion to a 16-bit
  integer does not see it.
\<close>

datatype jsnum = NaN | PosInf | NegInf | Fin real

fun Math_min :: "jsnum \<Rightarrow> jsnum \<Rightarrow> jsnum" where
  "Math_min NaN y = NaN"
| "Math_min x NaN = NaN"
| "Math_min NegInf y = NegInf"
| "Math_min x NegInf = NegInf"
| "Math_min PosInf y = y"
| "Math_min x PosInf = x"
| "Math_min (Fin a) (Fin b) = Fin (min a b)"

fun Math_max :: "jsnum \<Rightarrow> jsnum \<Rightarrow> jsnum" where
  "Math_max NaN y = NaN"
| "Math_max x NaN = NaN"
| "Math_max PosInf y = PosInf"
| "Math_max x PosInf = PosInf"
| "Math_max NegInf y = y"
| "Math_max x NegInf = x"
| "Math_max (Fin a) (Fin b) = Fin (max a b)"

text \<open>\<^verbatim>\<open>x * 32767\<close>: NaN and the infinities are kept, a finite value is scaled.\<close>

fun times_32767 :: "jsnum \<Rightarrow> jsnum" where
  "times_32767 NaN = NaN"
| "times_32767 PosInf = PosInf"
| "times_32767 NegInf = NegInf"
| "times_32767 (Fin r) = Fin (r * 32767)"

text \<open>
  Storing a number into an \<^verbatim>\<open>Int16Array\<close> applies ECMAScript's ToInt16: NaN and the
  infinities become 0, a finite number is truncated towards zero and reduced modulo
  \<open>2^16\<close> into the two's complement range. \<open>word_of_int\<close> is that reduction;
  \<open>sint\<close> reads the stored element back.
\<close>

definition js_trunc :: "real \<Rightarrow> int" where
  "js_trunc r = (if 0 \<le> r then \<lfloor>r\<rfloor> else \<lceil>r\<rceil>)"

fun ToInt16 :: "jsnum \<Rightarrow> 16 word" where
  "ToInt16 NaN = 0"
| "ToInt16 PosInf = 0"
| "ToInt16 NegInf = 0"
| "ToInt16 (Fin r) = word_of_int (js_trunc r)"

subsection \<open>createPcmBlob\<close>

text \<open>
  The loop body. \<^verbatim>\<open>liveService.ts\<close> line 120 stores \<^verbatim>\<open>data[i] * 32767\<close>;
  \<^verbatim>\<open>part_000\<close> line 151 and \<^verbatim>\<open>part_001\<close> line 139 store
  \<^verbatim>\<open>Math.max(-1, Math.min(1, data[i])) * 32767\<close>.
\<close>

definition sample_int16 :: "variant \<Rightarrow> jsnum \<Rightarrow> 16 word" where
  "sample_int16 v x =
     (if v = LiveService_ts then ToInt16 (times_32767 x)
      else ToInt16 (times_32767 (Math_max (Fin (- 1)) (Math_min (Fin 1) x))))"

text \<open>The \<^verbatim>\<open>for\<close> loop over \<^verbatim>\<open>0 .. l-1\<close> fills one element per sample.\<close>

definition fill_int16 :: "variant \<Rightarrow> jsnum list \<Rightarrow> 16 word list" where
  "fill_int16 v samples = map (sample_int16 v) samples"

text \<open>
  \<^verbatim>\<open>new Uint8Array(int16.buffer)\<close> views the same buffer as bytes, in the byte order of
  the platform; the browsers the program runs on are little-endian, so each element
  gives its low byte first.
\<close>

definition int16_bytes :: "16 word \<Rightarrow> 8 word list" where
  "int16_bytes w = [ucast w, ucast (drop_bit 8 w)]"

text \<open>Reading two bytes as a little-endian 16-bit integer, as the receiver does.\<close>

definition int16_of_bytes :: "8 word \<Rightarrow> 8 word \<Rightarrow> 16 word" where
  "int16_of_bytes lo hi = word_cat hi lo"

definition pcm_bytes :: "variant \<Rightarrow> jsnum list \<Rightarrow> 8 word list" where
  "pcm_bytes v samples = concat (map int16_bytes (fill_int16 v samples))"

record 'e blob =
  data :: 'e
  mimeType :: string

text \<open>
  \<^verbatim>\<open>encode\<close> comes from \<^verbatim>\<open>../utils/audioUtils\<close>, which is not among the sources;
  it is a parameter.
\<close>

definition createPcmBlob :: "(8 word list \<Rightarrow> 'e) \<Rightarrow> variant \<Rightarrow> jsnum list \<Rightarrow> 'e blob" where
  "createPcmBlob encode v samples =
     \<lparr>data = encode (pcm_bytes v samples), mimeType = ''audio/pcm;rate=16000''\<rparr>"

subsection \<open>The fields of the class and what its methods do to the outside\<close>

text \<open>
  Objects of the platform (audio contexts, the media stream, the script processor, the
  session promise, buffer source nodes) are handles. \<^verbatim>\<open>sources\<close> is a JavaScript
  \<^verbatim>\<open>Set\<close>, which iterates in insertion order and holds no element twice: a list
  without repetition. \<^verbatim>\<open>nextStartTime\<close> and the clock of the audio context are doubles
  in the source; they are real numbers here, added with the rounding of doubles.
\<close>

type_synonym handle = nat

record live_state =
  sessionPromise :: "handle option"
  inputAudioContext :: "handle option"
  outputAudioContext :: "handle option"
  nextStartTime :: real
  sources :: "handle list"
  mediaStream :: "handle option"
  scriptProcessor :: "handle option"
  currentInput :: string
  currentOutput :: string

text \<open>The field initialisers of the class.\<close>

definition initial_state :: live_state where
  "initial_state =
     \<lparr>sessionPromise = None, inputAudioContext = None, outputAudioContext = None,
      nextStartTime = 0, sources = [], mediaStream = None, scriptProcessor = None,
      currentInput = [], currentOutput = []\<rparr>"

datatype direction = Input | Output

text \<open>
  Every call a method makes on a callback or on a platform object is recorded, in order.
  \<open>Console\<close> is \<^verbatim>\<open>console.error/log/debug\<close> with its first argument. \<open>Rejection\<close> is
  a promise that is rejected with no handler attached to it: an exception that leaves an
  \<^verbatim>\<open>async\<close> function, or a rejected promise of the platform that the code leaves
  alone (nothing is thrown to a caller; the platform reports an unhandled rejection).
  \<open>ThenClose\<close> is the call of \<^verbatim>\<open>then\<close> on the session promise that registers the
  reaction closing the session; \<open>SessionClose\<close> is the call of \<^verbatim>\<open>session.close()\<close>
  that this reaction makes later.
\<close>

datatype effect =
    OnTranscription string direction bool
  | OnStatusChange string
  | OnError string
  | Console string
  | Rejection string
  | ContextOpen handle nat
  | MicrophoneOpen handle
  | LiveConnect handle string
  | ProcessorCreate handle
  | SourceStart handle real
  | SourceStop handle
  | TrackStop handle
  | ProcessorDisconnect handle
  | ThenClose handle
  | SessionClose handle
  | ContextClose handle

fun is_callback :: "effect \<Rightarrow> bool" where
  "is_callback (OnTranscription t d f) = True"
| "is_callback (OnStatusChange st) = True"
| "is_callback (OnError e) = True"
| "is_callback x = False"

fun is_onError :: "effect \<Rightarrow> bool" where
  "is_onError (OnError e) = True"
| "is_onError x = False"

text \<open>Effects that acquire a device or open the network session.\<close>

fun is_acquire :: "effect \<Rightarrow> bool" where
  "is_acquire (ContextOpen h r) = True"
| "is_acquire (MicrophoneOpen h) = True"
| "is_acquire (LiveConnect h l) = True"
| "is_acquire (ProcessorCreate h) = True"
| "is_acquire (SourceStart h t) = True"
| "is_acquire x = False"

text \<open>JavaScript truthiness of a value that is a string or \<^verbatim>\<open>undefined\<close>.\<close>

fun truthy :: "string option \<Rightarrow> bool" where
  "truthy None = False"
| "truthy (Some []) = False"
| "truthy (Some (c # cs)) = True"

text \<open>\<^verbatim>\<open>Set.prototype.add\<close> and \<^verbatim>\<open>delete\<close>.\<close>

definition set_add :: "handle list \<Rightarrow> handle \<Rightarrow> handle list" where
  "set_add hs h = (if h \<in> set hs then hs else hs @ [h])"

definition set_delete :: "handle list \<Rightarrow> handle \<Rightarrow> handle list" where
  "set_delete hs h = removeAll h hs"

subsection \<open>Addition of JavaScript numbers\<close>

text \<open>
  \<^verbatim>\<open>nextStartTime\<close>, the clock of the context and the duration of a buffer are doubles
  (IEEE 754 binary64); every finite double is a real number, and the times are modelled
  by \<open>real\<close>. Comparison and \<^verbatim>\<open>Math.max\<close> of finite doubles are exact. The sum
  \<^verbatim>\<open>x + y\<close> is the real sum rounded to the nearest double, a tie going to the even
  significand:
  \<^item> \<open>binade a\<close> is the exponent \<open>e\<close> with \<open>2^e \<le> a < 2^(e+1)\<close>, kept between -1022
    (below it the doubles are subnormal and share the spacing of that binade) and 1023;
  \<^item> \<open>ulp a\<close> is the spacing \<open>2^(e-52)\<close> of the doubles of that binade;
  \<^item> \<open>to_double\<close> rounds the magnitude to a multiple of that spacing.
  The code's sum is \<^verbatim>\<open>Infinity\<close> exactly when the rounded magnitude reaches \<open>2^1024\<close>;
  \<open>to_double\<close> then returns a real of at least \<open>2^1024\<close>, which stands for it. Times
  are seconds and stay far below. NaN does not arise from finite times.
\<close>

fun binade_up :: "nat \<Rightarrow> real \<Rightarrow> int" where
  "binade_up 0 a = 0"
| "binade_up (Suc n) a = (if 2 \<le> a then binade_up n (a / 2) + 1 else 0)"

fun binade_down :: "nat \<Rightarrow> real \<Rightarrow> int" where
  "binade_down 0 a = 0"
| "binade_down (Suc n) a = (if a < 1 then binade_down n (2 * a) - 1 else 0)"

definition binade :: "real \<Rightarrow> int" where
  "binade a = (if 1 \<le> a then binade_up 1023 a else binade_down 1022 a)"

definition ulp :: "real \<Rightarrow> real" where
  "ulp a = 2 powi (binade a - 52)"

definition round_half_even :: "real \<Rightarrow> int" where
  "round_half_even q =
     (if q - of_int \<lfloor>q\<rfloor> < 1 / 2 then \<lfloor>q\<rfloor>
      else if 1 / 2 < q - of_int \<lfloor>q\<rfloor> then \<lfloor>q\<rfloor> + 1
      else if even \<lfloor>q\<rfloor> then \<lfloor>q\<rfloor> else \<lfloor>q\<rfloor> + 1)"

definition to_double :: "real \<Rightarrow> real" where
  "to_double x =
     (if x = 0 then 0
      else sgn x * (of_int (round_half_even (\<bar>x\<bar> / ulp \<bar>x\<bar>)) * ulp \<bar>x\<bar>))"

definition double_add :: "real \<Rightarrow> real \<Rightarrow> real" where
  "double_add x y = to_double (x + y)"

text \<open>The reals that are doubles: the ones rounding leaves as they are.\<close>

definition is_double :: "real \<Rightarrow> bool" where
  "is_double x = (to_double x = x)"

subsection \<open>stopAllAudio\<close>

text \<open>
  \<^verbatim>\<open>stop()\<close> is called on every element, inside \<^verbatim>\<open>try/catch\<close>: an exception of one
  call is dropped and the iteration goes on. Then the set is cleared and
  \<^verbatim>\<open>nextStartTime\<close> is set to 0. The three versions agree.
\<close>

definition stopAllAudio :: "live_state \<Rightarrow> live_state \<times> effect list" where
  "stopAllAudio s = (s\<lparr>sources := [], nextStartTime := 0\<rparr>, map SourceStop (sources s))"

subsection \<open>playAudio\<close>

text \<open>
  \<^verbatim>\<open>playAudio\<close> is \<^verbatim>\<open>async\<close>. Up to its \<^verbatim>\<open>await\<close> it runs inside the caller:
  it returns at once when there is no output context, else it raises
  \<^verbatim>\<open>nextStartTime\<close> to the clock of the context. The boolean tells whether a
  continuation is left waiting.
\<close>

definition playAudio_begin :: "real \<Rightarrow> live_state \<Rightarrow> live_state \<times> bool" where
  "playAudio_begin currentTime s =
     (case outputAudioContext s of
        None \<Rightarrow> (s, False)
      | Some ctx \<Rightarrow> (s\<lparr>nextStartTime := max (nextStartTime s) currentTime\<rparr>, True))"

text \<open>
  What the \<^verbatim>\<open>catch\<close> around the body does with an exception: \<^verbatim>\<open>part_000\<close> and
  \<^verbatim>\<open>part_001\<close> log it; \<^verbatim>\<open>liveService.ts\<close> has no \<^verbatim>\<open>try\<close> there, the promise of
  \<^verbatim>\<open>playAudio\<close> is rejected.
\<close>

definition playAudio_failed :: "variant \<Rightarrow> effect list" where
  "playAudio_failed v =
     (if v = LiveService_ts then [Rejection ''playAudio'']
      else if v = Part_000 then [Console ''Audio chunk playback failed:'']
      else [Console ''Audio playback error:''])"

text \<open>
  The continuation. \<^verbatim>\<open>decode\<close> and \<^verbatim>\<open>decodeAudioData\<close> are not among the sources:
  their outcome is the argument \<open>decoded\<close>, the duration of the audio buffer or \<open>None\<close>
  when one of them fails. \<open>node\<close> is the object \<^verbatim>\<open>createBufferSource()\<close> returns. When
  the output context has been reset to \<^verbatim>\<open>null\<close> in the meantime, calling
  \<^verbatim>\<open>createBufferSource\<close> on it is a TypeError. The node is started at
  \<^verbatim>\<open>nextStartTime\<close>, then \<^verbatim>\<open>this.nextStartTime += audioBuffer.duration\<close> adds two
  doubles.
\<close>

definition playAudio_resume :: "variant \<Rightarrow> real option \<Rightarrow> handle \<Rightarrow> live_state \<Rightarrow> live_state \<times> effect list" where
  "playAudio_resume v decoded node s =
     (case decoded of
        None \<Rightarrow> (s, playAudio_failed v)
      | Some duration \<Rightarrow>
          (case outputAudioContext s of
             None \<Rightarrow> (s, playAudio_failed v)
           | Some ctx \<Rightarrow>
               (s\<lparr>nextStartTime := double_add (nextStartTime s) duration,
                  sources := set_add (sources s) node\<rparr>,
                [SourceStart node (nextStartTime s)])))"

text \<open>A chunk: the clock when it is enqueued, the outcome of decoding, the new node.\<close>

type_synonym chunk = "real \<times> real option \<times> handle"

text \<open>One call of \<^verbatim>\<open>playAudio\<close> with nothing running between its two halves.\<close>

fun playAudio :: "variant \<Rightarrow> chunk \<Rightarrow> live_state \<Rightarrow> live_state \<times> effect list" where
  "playAudio v (currentTime, decoded, node) s =
     (case playAudio_begin currentTime s of
        (s1, False) \<Rightarrow> (s1, [])
      | (s1, True) \<Rightarrow> playAudio_resume v decoded node s1)"

text \<open>The listener for \<^verbatim>\<open>ended\<close> that \<^verbatim>\<open>playAudio\<close> registers on the node.\<close>

definition onended :: "handle \<Rightarrow> live_state \<Rightarrow> live_state" where
  "onended node s = s\<lparr>sources := set_delete (sources s) node\<rparr>"

text \<open>Chunks enqueued one after the other.\<close>

fun play_all :: "variant \<Rightarrow> chunk list \<Rightarrow> live_state \<Rightarrow> live_state \<times> effect list" where
  "play_all v [] s = (s, [])"
| "play_all v (c # cs) s =
     (case playAudio v c s of
        (s1, e1) \<Rightarrow> (case play_all v cs s1 of (s2, e2) \<Rightarrow> (s2, e1 @ e2)))"

text \<open>The times passed to \<^verbatim>\<open>source.start\<close>, in order.\<close>

fun start_times :: "effect list \<Rightarrow> real list" where
  "start_times [] = []"
| "start_times (SourceStart h t # es) = t # start_times es"
| "start_times (e # es) = start_times es"

subsection \<open>disconnect\<close>

text \<open>
  The calls \<^verbatim>\<open>disconnect\<close> makes before it returns, in order. \<^verbatim>\<open>liveService.ts\<close>
  (lines 143-151) calls through \<^verbatim>\<open>?.\<close> and resets only \<^verbatim>\<open>sessionPromise\<close>.
  \<^verbatim>\<open>part_000\<close> (190-210) and \<^verbatim>\<open>part_001\<close> (178-196) also reset the stream, the
  processor and both contexts. On the session promise the method only calls
  \<^verbatim>\<open>then\<close>; the session is closed by the reaction, after the method has returned.
  Nothing here throws to the caller: \<^verbatim>\<open>stop()\<close> of a node is inside \<^verbatim>\<open>try/catch\<close> in
  every version, stopping a track and disconnecting a node do not throw, and
  \<^verbatim>\<open>then\<close> and \<^verbatim>\<open>close()\<close> return promises. What becomes of these promises, where the
  versions differ, follows below.
\<close>

definition release :: "(handle \<Rightarrow> effect) \<Rightarrow> handle option \<Rightarrow> effect list" where
  "release f h = (case h of None \<Rightarrow> [] | Some x \<Rightarrow> [f x])"

definition disconnect :: "variant \<Rightarrow> live_state \<Rightarrow> live_state \<times> effect list" where
  "disconnect v s =
     (case stopAllAudio s of
        (s1, e1) \<Rightarrow>
          (let e2 = release TrackStop (mediaStream s1);
               s2 = (if v = LiveService_ts then s1 else s1\<lparr>mediaStream := None\<rparr>);
               e3 = release ProcessorDisconnect (scriptProcessor s2);
               s3 = (if v = LiveService_ts then s2 else s2\<lparr>scriptProcessor := None\<rparr>);
               e4 = release ThenClose (sessionPromise s3);
               e5 = release ContextClose (inputAudioContext s3);
               e6 = release ContextClose (outputAudioContext s3);
               s4 = s3\<lparr>sessionPromise := None\<rparr>;
               s5 = (if v = LiveService_ts then s4
                     else s4\<lparr>inputAudioContext := None, outputAudioContext := None\<rparr>)
           in (s5, e1 @ e2 @ e3 @ e4 @ e5 @ e6)))"

text \<open>How a promise settles.\<close>

datatype settled = Fulfils | Rejects

text \<open>
  The reaction registered on the session promise, run when the promise has settled.
  \<open>close_throws\<close> tells whether \<^verbatim>\<open>session.close()\<close> throws.
  \<^item> \<^verbatim>\<open>liveService.ts\<close> (line 147): \<^verbatim>\<open>then(s => s.close())\<close>. An exception of
    \<^verbatim>\<open>close()\<close>, or a rejected session promise, rejects the promise \<^verbatim>\<open>then\<close>
    returned, which has no handler.
  \<^item> \<^verbatim>\<open>part_001\<close> (188-190): \<^verbatim>\<open>close()\<close> is inside \<^verbatim>\<open>try/catch\<close>; a rejected
    session promise still has no handler.
  \<^item> \<^verbatim>\<open>part_000\<close> (200-202): \<^verbatim>\<open>try/catch\<close> and \<^verbatim>\<open>.catch(() => {})\<close>.
\<close>

definition then_close :: "variant \<Rightarrow> handle \<Rightarrow> settled \<Rightarrow> bool \<Rightarrow> effect list" where
  "then_close v h promise close_throws =
     (case promise of
        Fulfils \<Rightarrow>
          SessionClose h #
          (if close_throws \<and> v = LiveService_ts then [Rejection ''session.close''] else [])
      | Rejects \<Rightarrow> (if v = Part_000 then [] else [Rejection ''sessionPromise'']))"

text \<open>
  The promise \<^verbatim>\<open>close()\<close> of an audio context returns. \<^verbatim>\<open>part_000\<close> (204-205)
  attaches \<^verbatim>\<open>.catch(() => {})\<close> to it; \<^verbatim>\<open>liveService.ts\<close> (148-149) and
  \<^verbatim>\<open>part_001\<close> (191-192) attach nothing.
\<close>

definition close_settles :: "variant \<Rightarrow> settled \<Rightarrow> effect list" where
  "close_settles v promise =
     (case promise of
        Fulfils \<Rightarrow> []
      | Rejects \<Rightarrow> (if v = Part_000 then [] else [Rejection ''AudioContext.close'']))"

text \<open>The contexts on which a list of calls has called \<^verbatim>\<open>close()\<close>.\<close>

fun closed_contexts :: "effect list \<Rightarrow> handle list" where
  "closed_contexts [] = []"
| "closed_contexts (ContextClose h # es) = h # closed_contexts es"
| "closed_contexts (e # es) = closed_contexts es"

text \<open>
  What becomes of the promises of the \<^verbatim>\<open>close()\<close> calls in a list of calls, given the
  contexts that were closed before. By the Web Audio API \<^verbatim>\<open>close()\<close> marks the context
  as closed at once, and \<^verbatim>\<open>close()\<close> of a context that is marked closed returns a
  promise rejected with InvalidStateError.
\<close>

fun close_promises :: "variant \<Rightarrow> handle list \<Rightarrow> effect list \<Rightarrow> effect list" where
  "close_promises v earlier [] = []"
| "close_promises v earlier (ContextClose h # es) =
     close_settles v (if h \<in> set earlier then Rejects else Fulfils)
     @ close_promises v (h # earlier) es"
| "close_promises v earlier (e # es) = close_promises v earlier es"

subsection \<open>The message handler\<close>

text \<open>
  What the handler reads of a \<^verbatim>\<open>LiveServerMessage\<close> (a message without
  \<^verbatim>\<open>serverContent\<close> has every field absent):
  \<^item> \<open>modelTurn\<close>: \<open>None\<close> when there is no model turn, \<open>Some None\<close> when the turn has
    no \<^verbatim>\<open>parts\<close>, else the parts, each given by its \<^verbatim>\<open>inlineData?.data\<close>;
  \<^item> \<open>inputTranscription\<close>, \<open>outputTranscription\<close>: the object when present, given by
    its \<^verbatim>\<open>text\<close>, which the type of the library leaves optional;
  \<^item> \<open>turnComplete\<close>, \<open>interrupted\<close>: the truthiness of the flag.
\<close>

record message =
  modelTurn :: "string option list option option"
  inputTranscription :: "string option option"
  outputTranscription :: "string option option"
  turnComplete :: bool
  interrupted :: bool

text \<open>
  \<^verbatim>\<open>message.serverContent?.modelTurn?.parts?.[0]?.inlineData?.data\<close>. \<^verbatim>\<open>part_001\<close>
  (line 53) writes \<^verbatim>\<open>parts[0]\<close> without \<^verbatim>\<open>?.\<close>: on a turn without parts the
  expression is a TypeError there.
\<close>

fun base64Audio :: "string option list option option \<Rightarrow> string option" where
  "base64Audio None = None"
| "base64Audio (Some None) = None"
| "base64Audio (Some (Some [])) = None"
| "base64Audio (Some (Some (p # ps))) = p"

definition parts_TypeError :: "variant \<Rightarrow> message \<Rightarrow> bool" where
  "parts_TypeError v m = (v = Part_001 \<and> modelTurn m = Some None)"

text \<open>\<^verbatim>\<open>buffer += text\<close>: an undefined text is appended as the word it prints as.\<close>

definition js_append :: "string \<Rightarrow> string option \<Rightarrow> string" where
  "js_append buffer t = buffer @ (case t of None \<Rightarrow> ''undefined'' | Some x \<Rightarrow> x)"

text \<open>
  The audio branch. \<^verbatim>\<open>liveService.ts\<close> (line 62) tests the payload only and leaves the
  test of the output context to \<^verbatim>\<open>playAudio\<close>; the other two test both first. The call
  is not awaited: the handler goes on when \<^verbatim>\<open>playAudio\<close> reaches its \<^verbatim>\<open>await\<close>.
\<close>

definition audio_branch :: "variant \<Rightarrow> message \<Rightarrow> real \<Rightarrow> live_state \<Rightarrow> live_state \<times> bool" where
  "audio_branch v m currentTime s =
     (if v = LiveService_ts then
        (if truthy (base64Audio (modelTurn m)) then playAudio_begin currentTime s else (s, False))
      else
        (if truthy (base64Audio (modelTurn m)) \<and> outputAudioContext s \<noteq> None
         then playAudio_begin currentTime s else (s, False)))"

definition input_branch :: "message \<Rightarrow> live_state \<Rightarrow> live_state \<times> effect list" where
  "input_branch m s =
     (case inputTranscription m of
        None \<Rightarrow> (s, [])
      | Some t \<Rightarrow>
          (let s1 = s\<lparr>currentInput := js_append (currentInput s) t\<rparr>
           in (s1, [OnTranscription (currentInput s1) Input False])))"

definition output_branch :: "message \<Rightarrow> live_state \<Rightarrow> live_state \<times> effect list" where
  "output_branch m s =
     (case outputTranscription m of
        None \<Rightarrow> (s, [])
      | Some t \<Rightarrow>
          (let s1 = s\<lparr>currentOutput := js_append (currentOutput s) t\<rparr>
           in (s1, [OnTranscription (currentOutput s1) Output False])))"

text \<open>
  The body of \<^verbatim>\<open>if (message.serverContent?.turnComplete)\<close>. \<^verbatim>\<open>part_000\<close>
  (lines 83-84) calls the callback for a direction only when its buffer is a non-empty
  string; \<^verbatim>\<open>liveService.ts\<close> (74-75) and \<^verbatim>\<open>part_001\<close> (72-73) call it for both
  directions whatever the buffers hold.
\<close>

definition on_turnComplete :: "variant \<Rightarrow> live_state \<Rightarrow> live_state \<times> effect list" where
  "on_turnComplete v s =
     (let e1 = (if v = Part_000 \<and> currentInput s = [] then []
                else [OnTranscription (currentInput s) Input True]);
          e2 = (if v = Part_000 \<and> currentOutput s = [] then []
                else [OnTranscription (currentOutput s) Output True])
      in (s\<lparr>currentInput := [], currentOutput := []\<rparr>, e1 @ e2))"

definition turn_branch :: "variant \<Rightarrow> message \<Rightarrow> live_state \<Rightarrow> live_state \<times> effect list" where
  "turn_branch v m s = (if turnComplete m then on_turnComplete v s else (s, []))"

definition interrupt_branch :: "message \<Rightarrow> live_state \<Rightarrow> live_state \<times> effect list" where
  "interrupt_branch m s = (if interrupted m then stopAllAudio s else (s, []))"

text \<open>
  The handler up to its return: the new state, the calls made, and whether a
  continuation of \<^verbatim>\<open>playAudio\<close> is left waiting.
\<close>

definition onmessage_sync :: "variant \<Rightarrow> message \<Rightarrow> real \<Rightarrow> live_state \<Rightarrow> live_state \<times> effect list \<times> bool" where
  "onmessage_sync v m currentTime s =
     (if parts_TypeError v m then (s, [Rejection ''TypeError''], False)
      else
        (case audio_branch v m currentTime s of
           (s1, waiting) \<Rightarrow>
             (case input_branch m s1 of
                (s2, e2) \<Rightarrow>
                  (case output_branch m s2 of
                     (s3, e3) \<Rightarrow>
                       (case turn_branch v m s3 of
                          (s4, e4) \<Rightarrow>
                            (case interrupt_branch m s4 of
                               (s5, e5) \<Rightarrow> (s5, e2 @ e3 @ e4 @ e5, waiting)))))))"

text \<open>
  An inbound message with what the platform answers while it is handled: the clock of
  the output context, the outcome of decoding its audio, the node created for it.
\<close>

record inbound =
  msg :: message
  clock :: real
  decoded_audio :: "real option"
  new_node :: handle

text \<open>
  The handler followed by the waiting continuation of \<^verbatim>\<open>playAudio\<close>, which runs after
  the handler has returned.
\<close>

definition onmessage :: "variant \<Rightarrow> inbound \<Rightarrow> live_state \<Rightarrow> live_state \<times> effect list" where
  "onmessage v i s =
     (case onmessage_sync v (msg i) (clock i) s of
        (s1, e1, waiting) \<Rightarrow>
          (if waiting then
             (case playAudio_resume v (decoded_audio i) (new_node i) s1 of
                (s2, e2) \<Rightarrow> (s2, e1 @ e2))
           else (s1, e1)))"

text \<open>The texts of the partial and of the final events of one direction, in order.\<close>

fun partial_texts :: "direction \<Rightarrow> effect list \<Rightarrow> string list" where
  "partial_texts d [] = []"
| "partial_texts d (OnTranscription t d' f # es) =
     (if d' = d \<and> \<not> f then t # partial_texts d es else partial_texts d es)"
| "partial_texts d (e # es) = partial_texts d es"

fun final_texts :: "direction \<Rightarrow> effect list \<Rightarrow> string list" where
  "final_texts d [] = []"
| "final_texts d (OnTranscription t d' f # es) =
     (if d' = d \<and> f then t # final_texts d es else final_texts d es)"
| "final_texts d (e # es) = final_texts d es"

subsection \<open>The other session callbacks\<close>

text \<open>
  \<^verbatim>\<open>onerror\<close>: \<^verbatim>\<open>liveService.ts\<close> (lines 82-86) and \<^verbatim>\<open>part_000\<close> (94-98) log,
  call \<^verbatim>\<open>onError\<close> and call \<^verbatim>\<open>disconnect\<close>; \<^verbatim>\<open>part_001\<close> (83-86) logs and calls
  \<^verbatim>\<open>onError\<close> only.
\<close>

definition onerror_report :: "variant \<Rightarrow> effect list" where
  "onerror_report v =
     (if v = LiveService_ts then
        [Console ''Connection Error:'', OnError ''Connection to Gemini failed.'']
      else if v = Part_000 then
        [Console ''Live API WebSocket Error:'',
         OnError ''Network connection failed. Please check your internet or API key permissions.'']
      else
        [Console ''Live API Error:'',
         OnError ''Network or API error occurred. Please verify your connection.''])"

definition onerror :: "variant \<Rightarrow> live_state \<Rightarrow> live_state \<times> effect list" where
  "onerror v s =
     (if v = Part_001 then (s, onerror_report v)
      else (case disconnect v s of (s1, e1) \<Rightarrow> (s1, onerror_report v @ e1)))"

text \<open>
  \<^verbatim>\<open>startStreaming\<close> returns at once unless the input context, the stream and the
  session promise are all set; else it creates the script processor (\<open>proc\<close>).
\<close>

definition startStreaming :: "handle \<Rightarrow> live_state \<Rightarrow> live_state \<times> effect list" where
  "startStreaming proc s =
     (if inputAudioContext s = None \<or> mediaStream s = None \<or> sessionPromise s = None
      then (s, [])
      else (s\<lparr>scriptProcessor := Some proc\<rparr>, [ProcessorCreate proc]))"

definition onopen :: "variant \<Rightarrow> handle \<Rightarrow> live_state \<Rightarrow> live_state \<times> effect list" where
  "onopen v proc s =
     (case startStreaming proc s of
        (s1, e1) \<Rightarrow>
          (s1, (if v = Part_000 then [Console ''Live session connected''] else [])
               @ [OnStatusChange ''LISTENING''] @ e1))"

definition onclose :: "variant \<Rightarrow> live_state \<Rightarrow> live_state \<times> effect list" where
  "onclose v s =
     (s, (if v = LiveService_ts then [] else [Console ''Live session closed:''])
         @ [OnStatusChange ''IDLE''])"

subsection \<open>connect\<close>

text \<open>
  What the platform answers to one call of \<^verbatim>\<open>connect\<close>:
  \<^item> \<open>process_env\<close>: \<open>None\<close> when reading \<^verbatim>\<open>process.env.API_KEY\<close> throws (no
    \<^verbatim>\<open>process\<close> object), else the value read, \<open>Some None\<close> for \<^verbatim>\<open>undefined\<close>;
  \<^item> \<open>window_API_KEY\<close>: \<^verbatim>\<open>(window as any).process?.env?.API_KEY\<close>;
  \<^item> \<open>new_GoogleGenAI\<close>: whether the constructor of the library, which is not part of
    the repository, returns for a given key (it may throw);
  \<^item> \<open>input_ctx\<close>, \<open>output_ctx\<close>: the new audio contexts, \<open>None\<close> when the constructor
    throws; \<open>input_resumed\<close>, \<open>output_resumed\<close>: whether \<^verbatim>\<open>resume()\<close> fulfils;
  \<^item> \<open>user_media\<close>: the stream of \<^verbatim>\<open>getUserMedia\<close>, \<open>None\<close> when it rejects;
  \<^item> \<open>session\<close>: the promise \<^verbatim>\<open>ai.live.connect\<close> returns (it is not awaited).

  The method is \<^verbatim>\<open>async\<close>; the model runs it to its end with nothing else running at
  its \<^verbatim>\<open>await\<close>s. The path taken when the key is missing has no \<^verbatim>\<open>await\<close>.
\<close>

record connect_env =
  process_env :: "string option option"
  window_API_KEY :: "string option"
  new_GoogleGenAI :: "string option \<Rightarrow> bool"
  input_ctx :: "handle option"
  output_ctx :: "handle option"
  input_resumed :: bool
  output_resumed :: bool
  user_media :: "handle option"
  session :: handle

text \<open>The \<^verbatim>\<open>catch\<close> block of \<^verbatim>\<open>connect\<close>.\<close>

definition setup_failed :: "variant \<Rightarrow> effect list" where
  "setup_failed v =
     (if v = LiveService_ts then
        [Console ''Setup Error:'', OnError ''Microphone access denied or audio error.'']
      else if v = Part_000 then
        [Console ''Connection failed during setup:'',
         OnError ''Audio initialization failed. Please ensure microphone access is granted.'',
         OnStatusChange ''IDLE'']
      else
        [Console ''Connection setup failed:'',
         OnError ''Could not initialize audio or reach the AI service.''])"

text \<open>The body of \<^verbatim>\<open>if (!apiKey)\<close> in \<^verbatim>\<open>liveService.ts\<close> (29-34) and \<^verbatim>\<open>part_000\<close> (28-33).\<close>

definition key_missing :: "variant \<Rightarrow> effect list" where
  "key_missing v =
     (if v = LiveService_ts then
        [Console ''API Key is missing from environment variables (process.env.API_KEY).'',
         OnError ''API Key is missing from environment variables (process.env.API_KEY).'']
      else
        [Console ''API_KEY is not defined in environment variables.'',
         OnError ''API Key missing. Please set API_KEY in your environment settings.'',
         OnStatusChange ''ERROR''])"

text \<open>From \<^verbatim>\<open>new GoogleGenAI\<close> to the end of the \<^verbatim>\<open>try\<close> block.\<close>

definition connect_body :: "variant \<Rightarrow> string \<Rightarrow> string option \<Rightarrow> connect_env \<Rightarrow> live_state \<Rightarrow> live_state \<times> effect list" where
  "connect_body v targetLanguage apiKey env s =
     (if \<not> new_GoogleGenAI env apiKey then (s, setup_failed v)
      else
        (case input_ctx env of
           None \<Rightarrow> (s, setup_failed v)
         | Some ic \<Rightarrow>
             (case output_ctx env of
                None \<Rightarrow> (s\<lparr>inputAudioContext := Some ic\<rparr>, ContextOpen ic 16000 # setup_failed v)
              | Some oc \<Rightarrow>
                  (let s2 = s\<lparr>inputAudioContext := Some ic, outputAudioContext := Some oc\<rparr>;
                       e2 = [ContextOpen ic 16000, ContextOpen oc 24000]
                   in if input_resumed env \<and> output_resumed env then
                        (case user_media env of
                           None \<Rightarrow> (s2, e2 @ setup_failed v)
                         | Some ms \<Rightarrow>
                             (s2\<lparr>mediaStream := Some ms, sessionPromise := Some (session env)\<rparr>,
                              e2 @ [MicrophoneOpen ms, LiveConnect (session env) targetLanguage]))
                      else (s2, e2 @ setup_failed v)))))"

text \<open>
  \<^verbatim>\<open>liveService.ts\<close> reads \<^verbatim>\<open>process.env.API_KEY\<close> and tests it; \<^verbatim>\<open>part_000\<close> takes
  the first truthy one of \<^verbatim>\<open>process.env?.API_KEY\<close> (guarded by \<^verbatim>\<open>typeof process\<close>),
  the key on \<^verbatim>\<open>window\<close> and the empty string, and tests it; \<^verbatim>\<open>part_001\<close> (line 26)
  passes \<^verbatim>\<open>process.env.API_KEY\<close> to the constructor untested.
\<close>

definition connect :: "variant \<Rightarrow> string \<Rightarrow> connect_env \<Rightarrow> live_state \<Rightarrow> live_state \<times> effect list" where
  "connect v targetLanguage env s =
     (if v = Part_000 then
        (let guarded = (case process_env env of None \<Rightarrow> None | Some k \<Rightarrow> k);
             apiKey =
               (if truthy guarded then guarded
                else if truthy (window_API_KEY env) then window_API_KEY env
                else Some [])
         in if \<not> truthy apiKey then (s, key_missing v)
            else connect_body v targetLanguage apiKey env s)
      else
        (case process_env env of
           None \<Rightarrow> (s, setup_failed v)
         | Some apiKey \<Rightarrow>
             if v = LiveService_ts \<and> \<not> truthy apiKey then (s, key_missing v)
             else connect_body v targetLanguage apiKey env s))"

subsection \<open>Runs of the class\<close>

text \<open>
  What can change an instance: a call of \<^verbatim>\<open>connect\<close> or \<^verbatim>\<open>disconnect\<close> by the
  application, a callback of the session (open, message, error, close), the end of the
  playback of a node. The handlers run one at a time, in the order of the events. The
  capture callback that \<^verbatim>\<open>startStreaming\<close> installs encodes a block and sends it; it
  reads and writes no field of the instance and is not an event here.
\<close>

datatype event =
    Connect string connect_env
  | Disconnect
  | Open_session handle
  | Message inbound
  | Session_error
  | Session_closed
  | Ended handle

fun step :: "variant \<Rightarrow> event \<Rightarrow> live_state \<Rightarrow> live_state \<times> effect list" where
  "step v (Connect targetLanguage env) s = connect v targetLanguage env s"
| "step v Disconnect s = disconnect v s"
| "step v (Open_session proc) s = onopen v proc s"
| "step v (Message i) s = onmessage v i s"
| "step v Session_error s = onerror v s"
| "step v Session_closed s = onclose v s"
| "step v (Ended node) s = (onended node s, [])"

fun run :: "variant \<Rightarrow> event list \<Rightarrow> live_state \<Rightarrow> live_state \<times> effect list" where
  "run v [] s = (s, [])"
| "run v (ev # evs) s =
     (case step v ev s of
        (s1, e1) \<Rightarrow> (case run v evs s1 of (s2, e2) \<Rightarrow> (s2, e1 @ e2)))"

text \<open>The events whose handling completes a turn: a message whose flag is read and set.\<close>

fun completes_turn :: "variant \<Rightarrow> event \<Rightarrow> bool" where
  "completes_turn v (Message i) = (turnComplete (msg i) \<and> \<not> parts_TypeError v (msg i))"
| "completes_turn v ev = False"

text \<open>The fragment buffer and the transcription field of a direction.\<close>

fun buffer :: "direction \<Rightarrow> live_state \<Rightarrow> string" where
  "buffer Input s = currentInput s"
| "buffer Output s = currentOutput s"

fun transcription :: "direction \<Rightarrow> message \<Rightarrow> string option option" where
  "transcription Input m = inputTranscription m"
| "transcription Output m = outputTranscription m"

subsection \<open>Inputs for the examples\<close>

text \<open>A message with no field set, and its arrival at clock 0 with no audio to decode.\<close>

definition silent :: message where
  "silent =
     \<lparr>modelTurn = None, inputTranscription = None, outputTranscription = None,
      turnComplete = False, interrupted = False\<rparr>"

definition arrives :: "message \<Rightarrow> inbound" where
  "arrives m = \<lparr>msg = m, clock = 0, decoded_audio = None, new_node = 0\<rparr>"

text \<open>
  A session in the middle of a turn: both contexts (handles 1 and 2), the stream (3), the
  session promise (4) and the processor (5) are set, two nodes (10 and 11) are playing,
  the next chunk is due at 7.5 seconds.
\<close>

definition listening :: live_state where
  "listening =
     \<lparr>sessionPromise = Some 4, inputAudioContext = Some 1, outputAudioContext = Some 2,
      nextStartTime = 15 / 2, sources = [10, 11], mediaStream = Some 3,
      scriptProcessor = Some 5, currentInput = ''Hel'', currentOutput = []\<rparr>"

text \<open>
  The doubles nearest to 0.1, 0.2 and 0.08 (what the literals \<^verbatim>\<open>0.1\<close>, \<^verbatim>\<open>0.2\<close> and
  \<^verbatim>\<open>0.08\<close> denote in JavaScript), and an instance whose output context is open.
\<close>

definition tenth :: real where
  "tenth = 3602879701896397 / 36028797018963968"

definition fifth :: real where
  "fifth = 3602879701896397 / 18014398509481984"

definition eight_hundredths :: real where
  "eight_hundredths = 5764607523034235 / 72057594037927936"

definition ready :: live_state where
  "ready = initial_state\<lparr>outputAudioContext := Some 2\<rparr>"

text \<open>
  An environment for \<^verbatim>\<open>connect\<close>: \<^verbatim>\<open>process.env.API_KEY\<close> reads as \<open>key\<close>, there
  is no key on \<^verbatim>\<open>window\<close>, the constructor of the library throws exactly when it is
  given \<^verbatim>\<open>undefined\<close>, and every device opens.
\<close>

definition browser_env :: "string option \<Rightarrow> connect_env" where
  "browser_env key =
     \<lparr>process_env = Some key, window_API_KEY = None, new_GoogleGenAI = (\<lambda>k. k \<noteq> None),
      input_ctx = Some 1, output_ctx = Some 2, input_resumed = True, output_resumed = True,
      user_media = Some 3, session = 4\<rparr>"

text \<open>
  A chunk that decodes: the clock when it is enqueued, the duration of its buffer, its
  node.
\<close>

fun decoded_chunk :: "real \<times> real \<times> handle \<Rightarrow> chunk" where
  "decoded_chunk (now, duration, node) = (now, Some duration, node)"

definition durations :: "(real \<times> real \<times> handle) list \<Rightarrow> real list" where
  "durations cs = map (\<lambda>c. fst (snd c)) cs"

section \<open>The PCM encoder\<close>

lemma length_pcm_bytes: "length (pcm_bytes v samples) = 2 * length samples"
  by (induction samples) (simp_all add: pcm_bytes_def fill_int16_def int16_bytes_def)

lemma int16_bytes_little_endian:
  "int16_bytes w = [lo, hi] \<Longrightarrow> int16_of_bytes lo hi = w"
proof -
  have "word_cat (ucast (drop_bit 8 w) :: 8 word) (ucast w :: 8 word) = w"
    by (rule bit_word_eqI) (auto simp: bit_simps)
  then show "int16_bytes w = [lo, hi] \<Longrightarrow> int16_of_bytes lo hi = w"
    by (auto simp: int16_bytes_def int16_of_bytes_def)
qed

lemma js_trunc_bounds:
  "- 32767 \<le> r \<Longrightarrow> r \<le> 32767 \<Longrightarrow> - 32767 \<le> js_trunc r \<and> js_trunc r \<le> 32767"
  unfolding js_trunc_def by (auto simp: le_floor_iff ceiling_le_iff intro: order_trans)

lemma sint_int16_self:
  "- 32768 \<le> k \<Longrightarrow> k \<le> 32767 \<Longrightarrow> sint (word_of_int k :: 16 word) = k"
  by (simp add: sint_sbintrunc' signed_take_bit_int_eq_self)

lemma clamp_scaled_bounds:
  "- 32767 \<le> max (- 1) (min 1 r) * (32767 :: real) \<and> max (- 1) (min 1 r) * (32767 :: real) \<le> 32767"
  by (auto simp: max_def min_def)

text \<open>What the clamping versions store for each kind of sample.\<close>

lemma clamped_sample_Fin:
  assumes "v \<noteq> LiveService_ts"
  shows "sint (sample_int16 v (Fin r)) = js_trunc (max (- 1) (min 1 r) * 32767)"
proof -
  let ?y = "max (- 1) (min 1 r) * 32767"
  have "- 32767 \<le> js_trunc ?y \<and> js_trunc ?y \<le> 32767"
    using clamp_scaled_bounds by (intro js_trunc_bounds) auto
  then have "sint (word_of_int (js_trunc ?y) :: 16 word) = js_trunc ?y"
    by (intro sint_int16_self) auto
  with assms show ?thesis by (simp add: sample_int16_def)
qed

lemma clamped_sample_special:
  assumes "v \<noteq> LiveService_ts"
  shows "sint (sample_int16 v NaN) = 0"
    and "sint (sample_int16 v PosInf) = 32767"
    and "sint (sample_int16 v NegInf) = - 32767"
  using assms by (simp_all add: sample_int16_def js_trunc_def)

lemma clamped_sample_range:
  assumes "v \<noteq> LiveService_ts"
  shows "- 32767 \<le> sint (sample_int16 v x) \<and> sint (sample_int16 v x) \<le> 32767"
proof (cases x)
  case (Fin r)
  have "- 32767 \<le> js_trunc (max (- 1) (min 1 r) * 32767)
      \<and> js_trunc (max (- 1) (min 1 r) * 32767) \<le> 32767"
    using clamp_scaled_bounds by (intro js_trunc_bounds) auto
  with Fin show ?thesis by (simp add: clamped_sample_Fin [OF assms])
qed (simp_all add: clamped_sample_special [OF assms])

text \<open>
  The law of the encoder as \<^verbatim>\<open>part_000\<close> and \<^verbatim>\<open>part_001\<close> implement it: two bytes per
  sample, each pair the little-endian image of the truncated product of the clamped
  sample and 32767 (0 for NaN), every stored value a signed 16-bit number. The function
  is total: it has no error result.
\<close>

lemma clamped_encoder_law:
  assumes "v \<noteq> LiveService_ts"
  shows "length (pcm_bytes v samples) = 2 * length samples"
    and "i < length samples \<Longrightarrow>
           int16_of_bytes (pcm_bytes v samples ! (2 * i)) (pcm_bytes v samples ! (2 * i + 1))
             = sample_int16 v (samples ! i)"
    and "sint (sample_int16 v (Fin r)) = js_trunc (max (- 1) (min 1 r) * 32767)"
    and "- 32768 \<le> sint (sample_int16 v x) \<and> sint (sample_int16 v x) \<le> 32767"
proof -
  show "length (pcm_bytes v samples) = 2 * length samples"
    by (rule length_pcm_bytes)
  show "i < length samples \<Longrightarrow>
           int16_of_bytes (pcm_bytes v samples ! (2 * i)) (pcm_bytes v samples ! (2 * i + 1))
             = sample_int16 v (samples ! i)"
  proof (induction samples arbitrary: i)
    case Nil
    then show ?case by simp
  next
    case (Cons x xs)
    have split: "pcm_bytes v (x # xs) = int16_bytes (sample_int16 v x) @ pcm_bytes v xs"
      by (simp add: pcm_bytes_def fill_int16_def)
    show ?case
    proof (cases i)
      case 0
      then show ?thesis
        using int16_bytes_little_endian [of "sample_int16 v x"]
        by (simp add: split int16_bytes_def)
    next
      case (Suc j)
      with Cons.prems have "j < length xs" by simp
      from Cons.IH [OF this] Suc show ?thesis
        by (simp add: split int16_bytes_def)
    qed
  qed
  show "sint (sample_int16 v (Fin r)) = js_trunc (max (- 1) (min 1 r) * 32767)"
    by (rule clamped_sample_Fin [OF assms])
  show "- 32768 \<le> sint (sample_int16 v x) \<and> sint (sample_int16 v x) \<le> 32767"
    using clamped_sample_range [OF assms, of x] by simp
qed

text \<open>
  C2. The claim says that every sample is clamped to \<open>[-1, 1]\<close> before it is scaled.
  \<^verbatim>\<open>createPcmBlob\<close> of \<^verbatim>\<open>liveService.ts\<close> scales without clamping: the sample 2.0
  becomes 65534, which the 16-bit store wraps to -2 (bytes FE FF), where the clamping
  versions of the same method store 32767.
\<close>

theorem unclamped_encoder_wraps:
  "sint (sample_int16 LiveService_ts (Fin 2)) = - 2
   \<and> pcm_bytes LiveService_ts [Fin 2] = [254, 255]
   \<and> sint (sample_int16 Part_000 (Fin 2)) = 32767
   \<and> sint (sample_int16 Part_001 (Fin 2)) = 32767"
  by (simp add: pcm_bytes_def fill_int16_def int16_bytes_def sample_int16_def js_trunc_def)

text \<open>
  C9. In the clamping encoder (\<^verbatim>\<open>part_000\<close>, \<^verbatim>\<open>part_001\<close>) every stored value lies
  in \<open>[-32767, 32767]\<close>, so -32768 is never produced, whatever the sample is (NaN and the
  infinities included); the sample 1.0 is stored as 32767 and -1.0 as -32767. The
  encoder is a function of the block alone.
\<close>

theorem clamped_encoder_range:
  assumes "v \<noteq> LiveService_ts"
  shows "list_all (\<lambda>w. - 32767 \<le> sint w \<and> sint w \<le> 32767 \<and> sint w \<noteq> - 32768) (fill_int16 v samples)
         \<and> sint (sample_int16 v (Fin 1)) = 32767
         \<and> sint (sample_int16 v (Fin (- 1))) = - 32767"
proof -
  have "- 32767 \<le> sint (sample_int16 v x) \<and> sint (sample_int16 v x) \<le> 32767
        \<and> sint (sample_int16 v x) \<noteq> - 32768" for x
    using clamped_sample_range [OF assms, of x] by simp
  then have "list_all (\<lambda>w. - 32767 \<le> sint w \<and> sint w \<le> 32767 \<and> sint w \<noteq> - 32768)
               (fill_int16 v samples)"
    by (simp add: fill_int16_def list_all_iff)
  moreover have "sint (sample_int16 v (Fin 1)) = 32767"
    using assms by (simp add: sample_int16_def js_trunc_def)
  moreover have "sint (sample_int16 v (Fin (- 1))) = - 32767"
    using assms by (simp add: sample_int16_def js_trunc_def)
  ultimately show ?thesis by simp
qed

theorem clamped_encoder_range_witness:
  "Part_000 \<noteq> LiveService_ts
   \<and> fill_int16 Part_000 [Fin 3, NaN, NegInf, Fin (- 1 / 2)] = [32767, 0, - 32767, - 16383]
   \<and> list_all (\<lambda>w. - 32767 \<le> sint w \<and> sint w \<le> 32767 \<and> sint w \<noteq> - 32768)
       (fill_int16 Part_000 [Fin 3, NaN, NegInf, Fin (- 1 / 2)])
   \<and> sint (sample_int16 Part_000 (Fin 1)) = 32767
   \<and> sint (sample_int16 Part_000 (Fin (- 1))) = - 32767"
proof -
  have v: "Part_000 \<noteq> LiveService_ts" by simp
  have "fill_int16 Part_000 [Fin 3, NaN, NegInf, Fin (- 1 / 2)] = [32767, 0, - 32767, - 16383]"
    by (simp add: fill_int16_def sample_int16_def js_trunc_def)
  with v clamped_encoder_range [OF v, of "[Fin 3, NaN, NegInf, Fin (- 1 / 2)]"]
  show ?thesis by simp
qed

section \<open>The transcript aggregator\<close>

lemma partial_texts_append:
  "partial_texts d (es @ fs) = partial_texts d es @ partial_texts d fs"
  by (induction d es rule: partial_texts.induct) simp_all

lemma final_texts_append:
  "final_texts d (es @ fs) = final_texts d es @ final_texts d fs"
  by (induction d es rule: final_texts.induct) simp_all

lemma partial_texts_stops: "partial_texts d (map SourceStop hs) = []"
  by (induction hs) simp_all

lemma final_texts_stops: "final_texts d (map SourceStop hs) = []"
  by (induction hs) simp_all

lemma audio_branch_buffers:
  "audio_branch v m t s = (s1, w) \<Longrightarrow> currentInput s1 = currentInput s \<and> currentOutput s1 = currentOutput s"
  by (auto simp: audio_branch_def playAudio_begin_def split: if_splits option.splits)

lemma playAudio_resume_transcripts:
  "playAudio_resume v dec n s = (s1, e) \<Longrightarrow>
     currentInput s1 = currentInput s \<and> currentOutput s1 = currentOutput s
     \<and> partial_texts d e = [] \<and> final_texts d e = []"
  by (auto simp: playAudio_resume_def playAudio_failed_def split: if_splits option.splits)

lemma input_branch_transcripts:
  "input_branch m s = (s1, e) \<Longrightarrow>
     currentOutput s1 = currentOutput s \<and> final_texts d e = []
     \<and> currentInput s1 = (case inputTranscription m of None \<Rightarrow> currentInput s | Some t \<Rightarrow> js_append (currentInput s) t)
     \<and> partial_texts d e = (case inputTranscription m of None \<Rightarrow> [] | Some t \<Rightarrow> if d = Input then [js_append (currentInput s) t] else [])"
  by (auto simp: input_branch_def Let_def split: option.splits)

lemma output_branch_transcripts:
  "output_branch m s = (s1, e) \<Longrightarrow>
     currentInput s1 = currentInput s \<and> final_texts d e = []
     \<and> currentOutput s1 = (case outputTranscription m of None \<Rightarrow> currentOutput s | Some t \<Rightarrow> js_append (currentOutput s) t)
     \<and> partial_texts d e = (case outputTranscription m of None \<Rightarrow> [] | Some t \<Rightarrow> if d = Output then [js_append (currentOutput s) t] else [])"
  by (auto simp: output_branch_def Let_def split: option.splits)

lemma turn_branch_transcripts:
  "turn_branch v m s = (s1, e) \<Longrightarrow>
     partial_texts d e = []
     \<and> buffer d s1 = (if turnComplete m then [] else buffer d s)"
  by (cases d) (auto simp: turn_branch_def on_turnComplete_def Let_def split: if_splits)

lemma interrupt_branch_transcripts:
  "interrupt_branch m s = (s1, e) \<Longrightarrow>
     currentInput s1 = currentInput s \<and> currentOutput s1 = currentOutput s
     \<and> partial_texts d e = [] \<and> final_texts d e = []"
  by (auto simp: interrupt_branch_def stopAllAudio_def partial_texts_stops final_texts_stops split: if_splits)

lemma onmessage_sync_partials:
  assumes "onmessage_sync v m t s = (s', e, w)"
  shows "partial_texts d e =
           (if parts_TypeError v m then []
            else case transcription d m of None \<Rightarrow> [] | Some x \<Rightarrow> [js_append (buffer d s) x])"
    and "buffer d s' =
           (if parts_TypeError v m then buffer d s
            else if turnComplete m then []
            else case transcription d m of None \<Rightarrow> buffer d s | Some x \<Rightarrow> js_append (buffer d s) x)"
proof -
  show "partial_texts d e =
           (if parts_TypeError v m then []
            else case transcription d m of None \<Rightarrow> [] | Some x \<Rightarrow> [js_append (buffer d s) x])"
  proof (cases "parts_TypeError v m")
    case True
    with assms show ?thesis by (auto simp: onmessage_sync_def)
  next
    case False
    obtain s1 w1 where a: "audio_branch v m t s = (s1, w1)" by (cases "audio_branch v m t s")
    obtain s2 e2 where b: "input_branch m s1 = (s2, e2)" by (cases "input_branch m s1")
    obtain s3 e3 where c: "output_branch m s2 = (s3, e3)" by (cases "output_branch m s2")
    obtain s4 e4 where t: "turn_branch v m s3 = (s4, e4)" by (cases "turn_branch v m s3")
    obtain s5 e5 where i: "interrupt_branch m s4 = (s5, e5)" by (cases "interrupt_branch m s4")
    from assms False a b c t i have e: "e = e2 @ e3 @ e4 @ e5"
      by (simp add: onmessage_sync_def)
    show ?thesis
      using False audio_branch_buffers[OF a] input_branch_transcripts[OF b, of d]
        output_branch_transcripts[OF c, of d] turn_branch_transcripts[OF t, of d]
        interrupt_branch_transcripts[OF i, of d]
      by (cases d) (auto simp: e partial_texts_append split: option.splits)
  qed
  show "buffer d s' =
           (if parts_TypeError v m then buffer d s
            else if turnComplete m then []
            else case transcription d m of None \<Rightarrow> buffer d s | Some x \<Rightarrow> js_append (buffer d s) x)"
  proof (cases "parts_TypeError v m")
    case True
    with assms show ?thesis by (auto simp: onmessage_sync_def)
  next
    case False
    obtain s1 w1 where a: "audio_branch v m t s = (s1, w1)" by (cases "audio_branch v m t s")
    obtain s2 e2 where b: "input_branch m s1 = (s2, e2)" by (cases "input_branch m s1")
    obtain s3 e3 where c: "output_branch m s2 = (s3, e3)" by (cases "output_branch m s2")
    obtain s4 e4 where t: "turn_branch v m s3 = (s4, e4)" by (cases "turn_branch v m s3")
    obtain s5 e5 where i: "interrupt_branch m s4 = (s5, e5)" by (cases "interrupt_branch m s4")
    from assms False a b c t i have e: "s' = s5"
      by (simp add: onmessage_sync_def)
    show ?thesis
      using False audio_branch_buffers[OF a] input_branch_transcripts[OF b, of d]
        output_branch_transcripts[OF c, of d] turn_branch_transcripts[OF t, of d]
        interrupt_branch_transcripts[OF i, of d]
      by (cases d) (auto simp: e split: option.splits)
  qed
qed

lemma onmessage_transcripts:
  assumes "onmessage v i s = (s', e)"
  shows "partial_texts d e =
           (if parts_TypeError v (msg i) then []
            else case transcription d (msg i) of None \<Rightarrow> [] | Some x \<Rightarrow> [js_append (buffer d s) x])"
    and "buffer d s' =
           (if parts_TypeError v (msg i) then buffer d s
            else if turnComplete (msg i) then []
            else case transcription d (msg i) of None \<Rightarrow> buffer d s | Some x \<Rightarrow> js_append (buffer d s) x)"
proof -
  obtain s1 e1 w where a: "onmessage_sync v (msg i) (clock i) s = (s1, e1, w)"
    by (cases "onmessage_sync v (msg i) (clock i) s")
  obtain s2 e2 where b: "playAudio_resume v (decoded_audio i) (new_node i) s1 = (s2, e2)"
    by (cases "playAudio_resume v (decoded_audio i) (new_node i) s1")
  have r: "buffer d s2 = buffer d s1" "partial_texts d e2 = []"
    using playAudio_resume_transcripts [OF b, of d] by (cases d; simp)+
  have e: "(s', e) = (if w then (s2, e1 @ e2) else (s1, e1))"
    using assms a b by (auto simp: onmessage_def split: if_splits)
  show "partial_texts d e =
           (if parts_TypeError v (msg i) then []
            else case transcription d (msg i) of None \<Rightarrow> [] | Some x \<Rightarrow> [js_append (buffer d s) x])"
    using e r onmessage_sync_partials(1) [OF a, of d]
    by (cases w) (simp_all add: partial_texts_append)
  show "buffer d s' =
           (if parts_TypeError v (msg i) then buffer d s
            else if turnComplete (msg i) then []
            else case transcription d (msg i) of None \<Rightarrow> buffer d s | Some x \<Rightarrow> js_append (buffer d s) x)"
    using e r onmessage_sync_partials(2) [OF a, of d]
    by (cases w) simp_all
qed

lemma disconnect_transcripts:
  "disconnect v s = (s', e) \<Longrightarrow> buffer d s' = buffer d s \<and> partial_texts d e = []"
  by (cases d)
    (auto simp: disconnect_def stopAllAudio_def release_def Let_def partial_texts_append
      partial_texts_stops split: option.splits if_splits)

lemma onerror_transcripts:
  "onerror v s = (s', e) \<Longrightarrow> buffer d s' = buffer d s \<and> partial_texts d e = []"
  using disconnect_transcripts [of v s _ _ d]
  by (auto simp: onerror_def onerror_report_def partial_texts_append split: if_splits prod.splits)

lemma onopen_transcripts:
  "onopen v p s = (s', e) \<Longrightarrow> buffer d s' = buffer d s \<and> partial_texts d e = []"
  by (cases d) (auto simp: onopen_def startStreaming_def split: if_splits)

lemma onclose_transcripts:
  "onclose v s = (s', e) \<Longrightarrow> buffer d s' = buffer d s \<and> partial_texts d e = []"
  by (auto simp: onclose_def split: if_splits)

lemma partial_texts_setup_failed: "partial_texts d (setup_failed v) = []"
  by (simp add: setup_failed_def)

lemma connect_body_transcripts:
  "connect_body v l k env s = (s', e) \<Longrightarrow> buffer d s' = buffer d s \<and> partial_texts d e = []"
  by (cases d)
    (auto simp: connect_body_def Let_def partial_texts_append partial_texts_setup_failed
      split: option.splits if_splits)

lemma connect_transcripts:
  "connect v l env s = (s', e) \<Longrightarrow> buffer d s' = buffer d s \<and> partial_texts d e = []"
  using connect_body_transcripts [of v l _ env s s' e d]
  by (auto simp: connect_def Let_def key_missing_def partial_texts_setup_failed
      split: option.splits if_splits)

lemma step_transcripts:
  assumes "step v ev s = (s', e)"
  shows "length (partial_texts d e) \<le> 1"
    and "\<forall>t \<in> set (partial_texts d e). prefix (buffer d s) t"
    and "\<not> completes_turn v ev \<Longrightarrow>
           prefix (buffer d s) (buffer d s') \<and> (\<forall>t \<in> set (partial_texts d e). prefix t (buffer d s'))"
proof -
  have quiet: "length (partial_texts d e) \<le> 1 \<and> (\<forall>t \<in> set (partial_texts d e). prefix (buffer d s) t)
      \<and> (\<not> completes_turn v ev \<longrightarrow>
           prefix (buffer d s) (buffer d s') \<and> (\<forall>t \<in> set (partial_texts d e). prefix t (buffer d s')))"
  proof (cases ev)
    case (Message i)
    with assms have m: "onmessage v i s = (s', e)" by simp
    show ?thesis
      using onmessage_transcripts [OF m, of d] Message
      by (auto simp: js_append_def split: option.splits if_splits)
  next
    case (Connect l env)
    with assms connect_transcripts [of v l env s s' e d] show ?thesis by simp
  next
    case Disconnect
    with assms disconnect_transcripts [of v s s' e d] show ?thesis by simp
  next
    case (Open_session p)
    with assms onopen_transcripts [of v p s s' e d] show ?thesis by simp
  next
    case Session_error
    with assms onerror_transcripts [of v s s' e d] show ?thesis by simp
  next
    case Session_closed
    with assms onclose_transcripts [of v s s' e d] show ?thesis by simp
  next
    case (Ended h)
    with assms show ?thesis by (cases d) (auto simp: onended_def)
  qed
  from quiet show "length (partial_texts d e) \<le> 1" by simp
  from quiet show "\<forall>t \<in> set (partial_texts d e). prefix (buffer d s) t" by simp
  from quiet show "\<not> completes_turn v ev \<Longrightarrow>
           prefix (buffer d s) (buffer d s') \<and> (\<forall>t \<in> set (partial_texts d e). prefix t (buffer d s'))"
    by simp
qed

lemma sorted_wrt_short: "length xs \<le> 1 \<Longrightarrow> sorted_wrt P xs"
  by (cases xs) auto

lemma run_partials:
  assumes "\<forall>ev \<in> set (butlast evs). \<not> completes_turn v ev"
  shows "sorted_wrt prefix (partial_texts d (snd (run v evs s)))
         \<and> (\<forall>t \<in> set (partial_texts d (snd (run v evs s))). prefix (buffer d s) t)"
  using assms
proof (induction evs arbitrary: s)
  case Nil
  show ?case by simp
next
  case (Cons ev evs)
  obtain s1 e1 where st: "step v ev s = (s1, e1)" by (cases "step v ev s")
  obtain s2 e2 where rn: "run v evs s1 = (s2, e2)" by (cases "run v evs s1")
  have whole: "partial_texts d (snd (run v (ev # evs) s)) = partial_texts d e1 @ partial_texts d e2"
    using st rn by (simp add: partial_texts_append)
  show ?case
  proof (cases "evs = []")
    case True
    with rn have "e2 = []" by simp
    with step_transcripts(1,2) [OF st, of d] show ?thesis
      unfolding whole by (simp add: sorted_wrt_short)
  next
    case False
    with Cons.prems have quiet: "\<not> completes_turn v ev"
      and rest: "\<forall>ev \<in> set (butlast evs). \<not> completes_turn v ev" by simp_all
    from Cons.IH [OF rest, of s1] rn
    have ih: "sorted_wrt prefix (partial_texts d e2)"
      "\<forall>t \<in> set (partial_texts d e2). prefix (buffer d s1) t" by simp_all
    from step_transcripts(3) [OF st quiet, of d]
    have grow: "prefix (buffer d s) (buffer d s1)"
      "\<forall>t \<in> set (partial_texts d e1). prefix t (buffer d s1)" by simp_all
    have cross: "\<forall>x \<in> set (partial_texts d e1). \<forall>y \<in> set (partial_texts d e2). prefix x y"
      using grow(2) ih(2) by (meson prefix_order.order_trans)
    have low: "\<forall>t \<in> set (partial_texts d e2). prefix (buffer d s) t"
      using grow(1) ih(2) by (meson prefix_order.order_trans)
    show ?thesis
      unfolding whole
      using step_transcripts(1,2) [OF st, of d] ih(1) cross low
      by (auto simp: sorted_wrt_append sorted_wrt_short)
  qed
qed

text \<open>
  The turn-complete branch of \<^verbatim>\<open>part_000\<close>: one final event per direction whose buffer
  is not empty, with the whole buffer as its text, none for an empty buffer. In every
  version both buffers are empty afterwards.
\<close>

lemma on_turnComplete_part_000:
  "final_texts d (snd (on_turnComplete Part_000 s)) = (if buffer d s = [] then [] else [buffer d s])"
  by (cases d) (simp_all add: on_turnComplete_def)

lemma on_turnComplete_clears:
  "currentInput (fst (on_turnComplete v s)) = [] \<and> currentOutput (fst (on_turnComplete v s)) = []"
  by (simp add: on_turnComplete_def Let_def)

text \<open>
  C1. The claim says that a final event is emitted for a direction only when its buffer
  is not empty, and none when both are empty. In \<^verbatim>\<open>liveService.ts\<close> (lines 73-78) and
  in \<^verbatim>\<open>part_001\<close> (71-76) a message that completes a turn while both buffers are empty
  makes the handler call \<^verbatim>\<open>onTranscription\<close> twice with the empty text and
  \<^verbatim>\<open>isFinal = true\<close>; the guarded version of the same branch in \<^verbatim>\<open>part_000\<close>
  (82-87) calls nothing.
\<close>

theorem turn_complete_reports_empty_buffers:
  "snd (onmessage LiveService_ts (arrives (silent\<lparr>turnComplete := True\<rparr>)) initial_state)
     = [OnTranscription [] Input True, OnTranscription [] Output True]
   \<and> snd (onmessage Part_001 (arrives (silent\<lparr>turnComplete := True\<rparr>)) initial_state)
     = [OnTranscription [] Input True, OnTranscription [] Output True]
   \<and> snd (onmessage Part_000 (arrives (silent\<lparr>turnComplete := True\<rparr>)) initial_state) = []"
  by (simp add: onmessage_def onmessage_sync_def parts_TypeError_def audio_branch_def
      input_branch_def output_branch_def turn_branch_def interrupt_branch_def
      on_turnComplete_def arrives_def silent_def initial_state_def)

text \<open>
  C8. Take any run of events in which no event but possibly the last completes a turn.
  The texts of the partial events of one direction, in the order they are delivered, form
  a chain: each is a prefix of every later one. (\<open>sorted_wrt prefix\<close> says that for
  every two positions \<open>i < j\<close> the text at \<open>i\<close> is a prefix of the text at \<open>j\<close>.) The last
  event may complete the turn: its fragments are appended before the buffers are reset.
\<close>

theorem partial_texts_prefix_chain:
  assumes "\<forall>ev \<in> set (butlast evs). \<not> completes_turn v ev"
  shows "sorted_wrt prefix (partial_texts d (snd (run v evs s)))"
  using run_partials [OF assms] by simp

theorem partial_texts_prefix_chain_witness:
  "list_all (\<lambda>ev. \<not> completes_turn Part_000 ev)
     (butlast [Message (arrives (silent\<lparr>inputTranscription := Some (Some ''lo'')\<rparr>)),
               Ended 10,
               Message (arrives (silent\<lparr>outputTranscription := Some (Some ''Hola'')\<rparr>)),
               Message (arrives (silent\<lparr>inputTranscription := Some (Some ''!''), turnComplete := True\<rparr>))])
   \<and> partial_texts Input (snd (run Part_000
       [Message (arrives (silent\<lparr>inputTranscription := Some (Some ''lo'')\<rparr>)),
        Ended 10,
        Message (arrives (silent\<lparr>outputTranscription := Some (Some ''Hola'')\<rparr>)),
        Message (arrives (silent\<lparr>inputTranscription := Some (Some ''!''), turnComplete := True\<rparr>))]
       listening)) = [''Hello'', ''Hello!'']
   \<and> sorted_wrt prefix (partial_texts Input (snd (run Part_000
       [Message (arrives (silent\<lparr>inputTranscription := Some (Some ''lo'')\<rparr>)),
        Ended 10,
        Message (arrives (silent\<lparr>outputTranscription := Some (Some ''Hola'')\<rparr>)),
        Message (arrives (silent\<lparr>inputTranscription := Some (Some ''!''), turnComplete := True\<rparr>))]
       listening)))"
proof -
  let ?evs = "[Message (arrives (silent\<lparr>inputTranscription := Some (Some ''lo'')\<rparr>)),
               Ended 10,
               Message (arrives (silent\<lparr>outputTranscription := Some (Some ''Hola'')\<rparr>)),
               Message (arrives (silent\<lparr>inputTranscription := Some (Some ''!''), turnComplete := True\<rparr>))]"
  have quiet: "\<forall>ev \<in> set (butlast ?evs). \<not> completes_turn Part_000 ev"
    by (simp add: arrives_def silent_def)
  have texts: "partial_texts Input (snd (run Part_000 ?evs listening)) = [''Hello'', ''Hello!'']"
    by (simp add: onmessage_def onmessage_sync_def parts_TypeError_def audio_branch_def
        input_branch_def output_branch_def turn_branch_def interrupt_branch_def
        on_turnComplete_def onended_def set_delete_def js_append_def
        arrives_def silent_def listening_def)
  from quiet have "list_all (\<lambda>ev. \<not> completes_turn Part_000 ev) (butlast ?evs)"
    by (simp add: list_all_iff)
  with texts partial_texts_prefix_chain [OF quiet, of Input listening]
  show ?thesis by simp
qed

text \<open>
  C10. A message in which the handler finds no audio payload, no transcription of either
  direction, no turn-complete flag and no interruption flag leaves every field of the
  instance as it was and calls no callback. Nothing at all is done, except that
  \<^verbatim>\<open>part_001\<close> ends with a TypeError inside the handler when the message has a model
  turn without parts.
\<close>

theorem unrecognised_message_is_ignored:
  assumes "\<not> truthy (base64Audio (modelTurn (msg i)))"
    and "inputTranscription (msg i) = None"
    and "outputTranscription (msg i) = None"
    and "\<not> turnComplete (msg i)"
    and "\<not> interrupted (msg i)"
  shows "fst (onmessage v i s) = s
         \<and> filter is_callback (snd (onmessage v i s)) = []
         \<and> snd (onmessage v i s) = (if parts_TypeError v (msg i) then [Rejection ''TypeError''] else [])"
  using assms
  by (simp add: onmessage_def onmessage_sync_def audio_branch_def input_branch_def
      output_branch_def turn_branch_def interrupt_branch_def)

theorem unrecognised_message_is_ignored_witness:
  "\<not> truthy (base64Audio (modelTurn (silent\<lparr>modelTurn := Some (Some [None])\<rparr>)))
   \<and> fst (onmessage Part_001 (arrives (silent\<lparr>modelTurn := Some (Some [None])\<rparr>)) listening) = listening
   \<and> snd (onmessage Part_001 (arrives (silent\<lparr>modelTurn := Some (Some [None])\<rparr>)) listening) = []"
  using unrecognised_message_is_ignored
    [of "arrives (silent\<lparr>modelTurn := Some (Some [None])\<rparr>)" Part_001 listening]
  by (simp add: arrives_def silent_def parts_TypeError_def)

section \<open>Rounded addition\<close>

lemma two_powi_Suc: "(2::real) powi (k + 1) = 2 * 2 powi k"
  by (simp add: power_int_add)

lemma binade_up_spec:
  "1 \<le> a \<Longrightarrow> 0 \<le> binade_up n a \<and> binade_up n a \<le> int n \<and> 2 powi (binade_up n a) \<le> a
     \<and> (binade_up n a < int n \<longrightarrow> a < 2 powi (binade_up n a + 1))"
proof (induction n arbitrary: a)
  case 0
  then show ?case by simp
next
  case (Suc n)
  show ?case
  proof (cases "2 \<le> a")
    case True
    define k where "k = binade_up n (a / 2)"
    have "1 \<le> a / 2" using True by simp
    from Suc.IH [OF this]
    have ih: "0 \<le> k" "k \<le> int n" "2 powi k \<le> a / 2" "k < int n \<longrightarrow> a / 2 < 2 powi (k + 1)"
      by (simp_all add: k_def)
    have val: "binade_up (Suc n) a = k + 1" using True by (simp add: k_def)
    have "2 powi (k + 1) \<le> a" using ih(3) by (simp add: two_powi_Suc)
    moreover have "k + 1 < int (Suc n) \<longrightarrow> a < 2 powi (k + 1 + 1)"
      using ih(4) two_powi_Suc [of "k + 1"] by auto
    ultimately show ?thesis unfolding val using ih(1,2) by simp
  next
    case False
    with Suc.prems show ?thesis by simp
  qed
qed

lemma binade_down_spec:
  "0 < a \<Longrightarrow> a < 2 \<Longrightarrow> - int n \<le> binade_down n a \<and> binade_down n a \<le> 0
     \<and> a < 2 powi (binade_down n a + 1)
     \<and> (- int n < binade_down n a \<longrightarrow> 2 powi (binade_down n a) \<le> a)"
proof (induction n arbitrary: a)
  case 0
  then show ?case by simp
next
  case (Suc n)
  show ?case
  proof (cases "a < 1")
    case True
    define k where "k = binade_down n (2 * a)"
    from Suc.prems True have "0 < 2 * a" "2 * a < 2" by simp_all
    from Suc.IH [OF this]
    have ih: "- int n \<le> k" "k \<le> 0" "2 * a < 2 powi (k + 1)" "- int n < k \<longrightarrow> 2 powi k \<le> 2 * a"
      by (simp_all add: k_def)
    have val: "binade_down (Suc n) a = k - 1" using True by (simp add: k_def)
    have up: "(2::real) powi k = 2 * 2 powi (k - 1)" using two_powi_Suc [of "k - 1"] by simp
    have "a < 2 powi (k - 1 + 1)" using ih(3) by (simp add: two_powi_Suc)
    moreover have "- int (Suc n) < k - 1 \<longrightarrow> 2 powi (k - 1) \<le> a"
      using ih(4) up by auto
    ultimately show ?thesis unfolding val using ih(1,2) by simp
  next
    case False
    with Suc.prems show ?thesis by simp
  qed
qed

lemma binade_spec:
  assumes "0 < a"
  shows "- 1022 \<le> binade a" "binade a \<le> 1023"
    "binade a < 1023 \<Longrightarrow> a < 2 powi (binade a + 1)"
    "- 1022 < binade a \<Longrightarrow> 2 powi (binade a) \<le> a"
proof -
  have *: "- 1022 \<le> binade a \<and> binade a \<le> 1023
     \<and> (binade a < 1023 \<longrightarrow> a < 2 powi (binade a + 1))
     \<and> (- 1022 < binade a \<longrightarrow> 2 powi (binade a) \<le> a)"
  proof (cases "1 \<le> a")
    case True
    with binade_up_spec [OF True, of 1023] show ?thesis by (simp add: binade_def)
  next
    case False
    then have "a < 2" by simp
    with binade_down_spec [OF assms this, of 1022] False show ?thesis by (simp add: binade_def)
  qed
  from * show "- 1022 \<le> binade a" "binade a \<le> 1023"
    "binade a < 1023 \<Longrightarrow> a < 2 powi (binade a + 1)"
    "- 1022 < binade a \<Longrightarrow> 2 powi (binade a) \<le> a" by simp_all
qed


lemma binade_mono:
  assumes "0 < a" and "a \<le> b"
  shows "binade a \<le> binade b"
proof (rule ccontr)
  assume "\<not> binade a \<le> binade b"
  then have lt: "binade b < binade a" by simp
  have b: "0 < b" using assms by simp
  from lt binade_spec(1) [OF b] have "- 1022 < binade a" by simp
  from binade_spec(4) [OF assms(1) this] have low: "2 powi (binade a) \<le> a" .
  from lt binade_spec(2) [OF assms(1)] have "binade b < 1023" by simp
  from binade_spec(3) [OF b this] have "b < 2 powi (binade b + 1)" .
  also have "\<dots> \<le> 2 powi (binade a)" using lt by (intro power_int_increasing) simp_all
  finally show False using low assms(2) by simp
qed

lemma binade_unique:
  assumes "0 < a" and "- 1022 \<le> k" and "k \<le> 1023"
    and lo: "- 1022 < k \<Longrightarrow> 2 powi k \<le> a"
    and hi: "k < 1023 \<Longrightarrow> a < 2 powi (k + 1)"
  shows "binade a = k"
proof (rule ccontr)
  assume ne: "binade a \<noteq> k"
  show False
  proof (cases "binade a < k")
    case True
    with binade_spec(1) [OF assms(1)] have "- 1022 < k" by simp
    from lo [OF this] have low: "2 powi k \<le> a" .
    from True assms(3) have "binade a < 1023" by simp
    from binade_spec(3) [OF assms(1) this] have "a < 2 powi (binade a + 1)" .
    also have "\<dots> \<le> 2 powi k" using True by (intro power_int_increasing) simp_all
    finally show False using low by simp
  next
    case False
    with ne have gt: "k < binade a" by simp
    with assms(2) have "- 1022 < binade a" by simp
    from binade_spec(4) [OF assms(1) this] have low: "2 powi (binade a) \<le> a" .
    from gt binade_spec(2) [OF assms(1)] have "k < 1023" by simp
    from hi [OF this] have "a < 2 powi (k + 1)" .
    also have "\<dots> \<le> 2 powi (binade a)" using gt by (intro power_int_increasing) simp_all
    finally show False using low by simp
  qed
qed

lemma round_half_even_of_int: "round_half_even (of_int n) = n"
  by (simp add: round_half_even_def)

lemma round_half_even_mono:
  assumes "q \<le> q'"
  shows "round_half_even q \<le> round_half_even q'"
proof (cases "\<lfloor>q\<rfloor> = \<lfloor>q'\<rfloor>")
  case True
  with assms show ?thesis by (auto simp: round_half_even_def)
next
  case False
  with floor_mono [OF assms] have "\<lfloor>q\<rfloor> + 1 \<le> \<lfloor>q'\<rfloor>" by simp
  moreover have "round_half_even q \<le> \<lfloor>q\<rfloor> + 1" by (simp add: round_half_even_def)
  moreover have "\<lfloor>q'\<rfloor> \<le> round_half_even q'" by (simp add: round_half_even_def)
  ultimately show ?thesis by linarith
qed

lemma round_half_even_numeral: "round_half_even (numeral k) = numeral k"
  by (simp add: round_half_even_def)

lemma round_half_even_nonneg:
  assumes "0 \<le> q"
  shows "0 \<le> round_half_even q"
proof -
  have "round_half_even 0 \<le> round_half_even q" using assms by (rule round_half_even_mono)
  moreover have "round_half_even 0 = 0" by (simp add: round_half_even_def)
  ultimately show ?thesis by simp
qed

lemma ulp_pos: "0 < ulp a"
  by (simp add: ulp_def)

lemma to_double_pos:
  "0 < x \<Longrightarrow> to_double x = of_int (round_half_even (x / ulp x)) * ulp x"
  by (simp add: to_double_def)

lemma to_double_nonneg:
  assumes "0 \<le> y"
  shows "0 \<le> to_double y"
proof (cases "y = 0")
  case True
  then show ?thesis by (simp add: to_double_def)
next
  case False
  with assms have y: "0 < y" by simp
  have "0 \<le> y / ulp y" using y ulp_pos [of y] by simp
  then have "0 \<le> round_half_even (y / ulp y)" by (rule round_half_even_nonneg)
  then show ?thesis using y ulp_pos [of y] by (simp add: to_double_pos)
qed

text \<open>A point of the grid of a binade is a double.\<close>

lemma to_double_grid:
  assumes "- 1022 \<le> e" and "e \<le> 1023" and "0 < n"
    and lo: "- 1022 < e \<Longrightarrow> 2 ^ 52 \<le> n"
    and hi: "e < 1023 \<Longrightarrow> n < 2 ^ 53"
  shows "binade (of_int n * 2 powi (e - 52)) = e"
    and "to_double (of_int n * 2 powi (e - 52)) = of_int n * 2 powi (e - 52)"
proof -
  let ?u = "(2::real) powi (e - 52)"
  let ?v = "of_int n * ?u"
  have u: "0 < ?u" by simp
  have v: "0 < ?v" using assms(3) u by simp
  have split: "(2::real) powi e = 2 ^ 52 * ?u"
    using power_int_add [of "2::real" 52 "e - 52"] by simp
  have split1: "(2::real) powi (e + 1) = 2 ^ 53 * ?u"
    using power_int_add [of "2::real" 53 "e - 52"] by (simp add: add.commute)
  have b: "binade ?v = e"
  proof (rule binade_unique [OF v assms(1,2)])
    assume "- 1022 < e"
    from lo [OF this] have "(2::real) ^ 52 \<le> of_int n"
      by (metis of_int_le_iff of_int_numeral of_int_power)
    then show "2 powi e \<le> ?v" using u by (simp add: split)
  next
    assume "e < 1023"
    from hi [OF this] have "of_int n < (2::real) ^ 53"
      by (metis of_int_less_iff of_int_numeral of_int_power)
    then show "?v < 2 powi (e + 1)" using u by (simp add: split1)
  qed
  show "binade ?v = e" by (rule b)
  have "ulp ?v = ?u" by (simp add: ulp_def b)
  then show "to_double ?v = ?v"
    using v u by (simp add: to_double_pos round_half_even_of_int)
qed


lemma significand_bounds:
  assumes "0 < y"
  shows "- 1022 < binade y \<Longrightarrow> 2 ^ 52 \<le> round_half_even (y / ulp y)"
    and "binade y < 1023 \<Longrightarrow> round_half_even (y / ulp y) \<le> 2 ^ 53"
proof -
  let ?e = "binade y"
  let ?u = "(2::real) powi (?e - 52)"
  have u: "0 < ?u" by simp
  have split: "(2::real) powi ?e = 2 ^ 52 * ?u"
    using power_int_add [of "2::real" 52 "?e - 52"] by simp
  have split1: "(2::real) powi (?e + 1) = 2 ^ 53 * ?u"
    using power_int_add [of "2::real" 53 "?e - 52"] by (simp add: add.commute)
  show "2 ^ 52 \<le> round_half_even (y / ulp y)" if "- 1022 < ?e"
  proof -
    from binade_spec(4) [OF assms that] have "2 ^ 52 * ?u \<le> y" by (simp add: split)
    then have "of_int (2 ^ 52) \<le> y / ulp y" using u by (simp add: ulp_def field_simps)
    from round_half_even_mono [OF this] show ?thesis by (simp add: round_half_even_numeral)
  qed
  show "round_half_even (y / ulp y) \<le> 2 ^ 53" if "?e < 1023"
  proof -
    from binade_spec(3) [OF assms that] have "y < 2 ^ 53 * ?u" by (simp add: split1)
    then have "y / ulp y \<le> of_int (2 ^ 53)" using u by (simp add: ulp_def field_simps)
    from round_half_even_mono [OF this] show ?thesis by (simp add: round_half_even_numeral)
  qed
qed

lemma to_double_idem:
  assumes "0 \<le> y"
  shows "to_double (to_double y) = to_double y"
proof (cases "y = 0")
  case True
  then show ?thesis by (simp add: to_double_def)
next
  case False
  with assms have y: "0 < y" by simp
  let ?e = "binade y"
  let ?n = "round_half_even (y / ulp y)"
  have val: "to_double y = of_int ?n * 2 powi (?e - 52)"
    using y by (simp add: to_double_pos ulp_def)
  have n0: "0 \<le> ?n" using y ulp_pos [of y] by (intro round_half_even_nonneg) simp
  show ?thesis
  proof (cases "?n = 0")
    case True
    with val have "to_double y = 0" by simp
    then show ?thesis by (simp add: to_double_def)
  next
    case False
    with n0 have n: "0 < ?n" by simp
    show ?thesis
    proof (cases "?e < 1023 \<and> ?n = 2 ^ 53")
      case True
      have "(2::real) powi (?e + 1 - 52) = 2 * 2 powi (?e - 52)"
        using power_int_add [of "2::real" 1 "?e - 52"] by (simp add: add.commute)
      then have shape: "to_double y = of_int (2 ^ 52) * 2 powi (?e + 1 - 52)"
        using True by (simp add: val)
      have "to_double (of_int (2 ^ 52) * 2 powi (?e + 1 - 52)) = of_int (2 ^ 52) * 2 powi (?e + 1 - 52)"
        using True binade_spec(1) [OF y] by (intro to_double_grid(2)) simp_all
      then show ?thesis by (simp only: shape)
    next
      case False
      have "to_double (of_int ?n * 2 powi (?e - 52)) = of_int ?n * 2 powi (?e - 52)"
      proof (rule to_double_grid(2) [OF binade_spec(1,2) [OF y] n])
        assume "- 1022 < ?e"
        then show "2 ^ 52 \<le> ?n" by (rule significand_bounds(1) [OF y])
      next
        assume top: "?e < 1023"
        from significand_bounds(2) [OF y top] False top show "?n < 2 ^ 53" by simp
      qed
      then show ?thesis by (simp only: val)
    qed
  qed
qed

lemma is_double_to_double: "0 \<le> y \<Longrightarrow> is_double (to_double y)"
  by (simp add: is_double_def to_double_idem)

text \<open>Rounding does not cross a double.\<close>

lemma to_double_above:
  assumes z: "is_double z" and "0 \<le> z" and "z \<le> y"
  shows "z \<le> to_double y"
proof (cases "z = 0")
  case True
  with assms to_double_nonneg [of y] show ?thesis by simp
next
  case False
  with assms have zp: "0 < z" and yp: "0 < y" by simp_all
  have grid: "z = of_int (round_half_even (z / ulp z)) * ulp z"
    using z zp by (simp add: is_double_def to_double_pos)
  have le: "binade z \<le> binade y" using zp assms(3) by (rule binade_mono)
  show ?thesis
  proof (cases "binade z = binade y")
    case True
    then have u: "ulp y = ulp z" by (simp add: ulp_def)
    have "z / ulp z = of_int (round_half_even (z / ulp z))"
      using grid ulp_pos [of z] by (metis nonzero_mult_div_cancel_right less_irrefl)
    then have "of_int (round_half_even (z / ulp z)) \<le> y / ulp y"
      using assms(3) ulp_pos [of z] by (simp add: u divide_right_mono)
    from round_half_even_mono [OF this]
    have "round_half_even (z / ulp z) \<le> round_half_even (y / ulp y)"
      by (simp add: round_half_even_of_int)
    then have "of_int (round_half_even (z / ulp z)) * ulp z \<le> of_int (round_half_even (y / ulp y)) * ulp y"
      using ulp_pos [of z] by (simp add: u)
    with grid yp show ?thesis by (simp add: to_double_pos)
  next
    case False
    with le have lt: "binade z < binade y" by simp
    with binade_spec(1) [OF zp] have "- 1022 < binade y" by simp
    from significand_bounds(1) [OF yp this]
    have "(2::real) ^ 52 \<le> of_int (round_half_even (y / ulp y))"
      by (metis of_int_le_iff of_int_numeral of_int_power)
    then have "2 ^ 52 * ulp y \<le> to_double y"
      using yp ulp_pos [of y] by (simp add: to_double_pos)
    moreover have "(2::real) powi (binade y) = 2 ^ 52 * ulp y"
      using power_int_add [of "2::real" 52 "binade y - 52"] by (simp add: ulp_def)
    ultimately have big: "2 powi (binade y) \<le> to_double y" by simp
    from lt binade_spec(2) [OF yp] have "binade z < 1023" by simp
    from binade_spec(3) [OF zp this] have "z < 2 powi (binade z + 1)" .
    also have "\<dots> \<le> 2 powi (binade y)" using lt by (intro power_int_increasing) simp_all
    finally show ?thesis using big by simp
  qed
qed

lemma double_add_grows:
  assumes "is_double x" and "0 \<le> x" and "0 \<le> d"
  shows "x \<le> double_add x d" and "is_double (double_add x d)" and "0 \<le> double_add x d"
  using assms to_double_above [of x "x + d"] is_double_to_double [of "x + d"] to_double_nonneg [of "x + d"]
  by (simp_all add: double_add_def)

text \<open>Unfolding the search for the binade on a numeral bound.\<close>

lemma binade_up_numeral:
  "binade_up (numeral k) a = (if 2 \<le> a then binade_up (pred_numeral k) (a / 2) + 1 else 0)"
  by (simp add: numeral_eq_Suc)

lemma binade_down_numeral:
  "binade_down (numeral k) a = (if a < 1 then binade_down (pred_numeral k) (2 * a) - 1 else 0)"
  by (simp add: numeral_eq_Suc)

lemmas double_eval =
  double_add_def to_double_def ulp_def binade_def binade_up_numeral binade_down_numeral
  round_half_even_def

lemma is_double_0: "is_double 0"
  by (simp add: is_double_def to_double_def)

lemma is_double_max: "is_double x \<Longrightarrow> is_double y \<Longrightarrow> is_double (max x y)"
  by (simp add: max_def)

text \<open>
  Adding durations that are not negative, one after the other, to a double that is not
  negative: the running sum never moves back, although each step is rounded.
\<close>

lemma running_sum_grows:
  assumes "is_double t" and "0 \<le> t" and "\<forall>d \<in> set ds. 0 \<le> d"
  shows "t \<le> foldl double_add t ds \<and> is_double (foldl double_add t ds) \<and> 0 \<le> foldl double_add t ds"
  using assms
proof (induction ds arbitrary: t)
  case Nil
  then show ?case by simp
next
  case (Cons d ds)
  then have d: "0 \<le> d" and rest: "\<forall>d \<in> set ds. 0 \<le> d" by simp_all
  note step = double_add_grows [OF Cons.prems(1,2) d]
  from Cons.IH [OF step(2) step(3) rest] step(1) show ?case by simp
qed

lemma running_sum_mono:
  assumes "is_double t" and "0 \<le> t" and "\<forall>d \<in> set ds. 0 \<le> d" and "i \<le> j"
  shows "foldl double_add t (take i ds) \<le> foldl double_add t (take j ds)"
proof -
  have split: "take j ds = take i ds @ take (j - i) (drop i ds)"
    using assms(4) by (metis le_add_diff_inverse take_add)
  have first: "\<forall>d \<in> set (take i ds). 0 \<le> d"
    using assms(3) by (meson in_set_takeD)
  have second: "\<forall>d \<in> set (take (j - i) (drop i ds)). 0 \<le> d"
    using assms(3) by (meson in_set_dropD in_set_takeD)
  note mid = running_sum_grows [OF assms(1,2) first]
  from running_sum_grows [OF _ _ second, of "foldl double_add t (take i ds)"] mid
  show ?thesis by (simp add: split)
qed

section \<open>The playback scheduler\<close>

lemma playAudio_decoded:
  assumes "outputAudioContext s = Some ctx"
  shows "playAudio v (now, Some d, h) s =
           (s\<lparr>nextStartTime := double_add (max (nextStartTime s) now) d,
              sources := set_add (sources s) h\<rparr>,
            [SourceStart h (max (nextStartTime s) now)])"
  using assms by (simp add: playAudio_begin_def playAudio_resume_def)

lemma play_all_aligned:
  assumes "outputAudioContext s = Some ctx"
    and "\<forall>k < length cs. fst (cs ! k) \<le> foldl double_add (nextStartTime s) (take k (durations cs))"
  shows "start_times (snd (play_all v (map decoded_chunk cs) s))
           = map (\<lambda>n. foldl double_add (nextStartTime s) (take n (durations cs))) [0..<length cs]"
  using assms
proof (induction cs arbitrary: s)
  case Nil
  show ?case by simp
next
  case (Cons c cs)
  obtain now d h where c: "c = (now, d, h)" by (cases c)
  from Cons.prems(2)
  have "fst ((c # cs) ! 0) \<le> foldl double_add (nextStartTime s) (take 0 (durations (c # cs)))"
    by blast
  with c have early: "now \<le> nextStartTime s" by simp
  let ?s1 = "s\<lparr>nextStartTime := double_add (nextStartTime s) d, sources := set_add (sources s) h\<rparr>"
  have one: "playAudio v (decoded_chunk c) s = (?s1, [SourceStart h (nextStartTime s)])"
    using playAudio_decoded [OF Cons.prems(1), of v now d h] early c by (simp add: max_def)
  have ctx1: "outputAudioContext ?s1 = Some ctx" using Cons.prems(1) by simp
  have rest: "\<forall>k < length cs. fst (cs ! k) \<le> foldl double_add (nextStartTime ?s1) (take k (durations cs))"
  proof (intro allI impI)
    fix k assume "k < length cs"
    then have "Suc k < length (c # cs)" by simp
    with Cons.prems(2)
    have "fst ((c # cs) ! Suc k)
        \<le> foldl double_add (nextStartTime s) (take (Suc k) (durations (c # cs)))"
      by blast
    with c show "fst (cs ! k) \<le> foldl double_add (nextStartTime ?s1) (take k (durations cs))"
      by (simp add: durations_def)
  qed
  from Cons.IH [OF ctx1 rest]
  have ih: "start_times (snd (play_all v (map decoded_chunk cs) ?s1))
              = map (\<lambda>n. foldl double_add (nextStartTime ?s1) (take n (durations cs))) [0..<length cs]" .
  have shift: "map (\<lambda>n. foldl double_add (nextStartTime s) (take n (durations (c # cs))))
                 [0..<length (c # cs)]
      = nextStartTime s
        # map (\<lambda>n. foldl double_add (nextStartTime ?s1) (take n (durations cs))) [0..<length cs]"
    using c by (simp add: durations_def upt_conv_Cons map_Suc_upt [symmetric] del: upt_Suc)
  show ?case
    unfolding shift using one ih c
    by (simp add: split_beta)
qed

text \<open>
  Under the hypothesis on the clock the first half of \<^verbatim>\<open>playAudio\<close> changes nothing, so
  it does not matter whether the first half of a later call runs before or after the
  continuation of an earlier one.
\<close>

lemma playAudio_begin_early:
  assumes "outputAudioContext s = Some ctx" and "now \<le> nextStartTime s"
  shows "playAudio_begin now s = (s, True)"
  using assms by (simp add: playAudio_begin_def max_def)

lemma playAudio_raised:
  assumes "outputAudioContext s = Some ctx"
  shows "playAudio v (now, dec, h) (s\<lparr>nextStartTime := max (nextStartTime s) now\<rparr>)
           = playAudio v (now, dec, h) s"
  using assms by (simp add: playAudio_begin_def)

text \<open>
  C3, as amended. Chunks that decode are enqueued one after the other on an open output
  context, with no \<^verbatim>\<open>stopAllAudio\<close> in between; \<^verbatim>\<open>nextStartTime\<close> and the clocks are
  doubles that are not negative, the durations are not negative, the clock at each
  enqueue after the first is not past the end of what is scheduled so far, and the
  schedule stays below \<open>2^1024\<close>. Then:
  \<^item> one enqueue starts its node at \<open>max nextStartTime currentTime\<close> and moves
    \<^verbatim>\<open>nextStartTime\<close> to the sum of that start and the duration of the chunk, rounded to
    a double;
  \<^item> the start of chunk number \<open>n\<close> (from 0) is the start of the first chunk with the
    durations of the \<open>n\<close> chunks before it added one after the other, each sum rounded
    to a double (\<open>foldl double_add\<close>);
  \<^item> no chunk starts before the scheduled end of an earlier one, the scheduled end being
    the rounded sum of start and duration that the scheduler keeps.
  The claim as written speaks of the exact sum of the durations and of the exact end of a
  chunk; the rounding of each addition makes both fail, as the two examples after the
  theorem show.
\<close>

theorem gapless_schedule:
  fixes cs :: "(real \<times> real \<times> handle) list"
  assumes ctx: "outputAudioContext s = Some ctx"
    and time: "is_double (nextStartTime s) \<and> 0 \<le> nextStartTime s"
    and chunks: "\<forall>c \<in> set cs. is_double (fst c) \<and> 0 \<le> fst (snd c)"
    and clock: "\<forall>k. 0 < k \<and> k < length cs \<longrightarrow>
           fst (cs ! k)
             \<le> foldl double_add (max (nextStartTime s) (fst (cs ! 0))) (take k (durations cs))"
    and bounded: "foldl double_add (max (nextStartTime s) (fst (cs ! 0))) (durations cs) < 2 ^ 1024"
  shows "playAudio v (now, Some d, node) s =
           (s\<lparr>nextStartTime := double_add (max (nextStartTime s) now) d,
              sources := set_add (sources s) node\<rparr>,
            [SourceStart node (max (nextStartTime s) now)])
         \<and> start_times (snd (play_all v (map decoded_chunk cs) s))
             = map (\<lambda>n. foldl double_add (max (nextStartTime s) (fst (cs ! 0)))
                          (take n (durations cs)))
                 [0..<length cs]
         \<and> (\<forall>i j. i < j \<and> j < length cs \<longrightarrow>
               double_add (start_times (snd (play_all v (map decoded_chunk cs) s)) ! i)
                          (durations cs ! i)
                 \<le> start_times (snd (play_all v (map decoded_chunk cs) s)) ! j)"
proof -
  let ?t0 = "max (nextStartTime s) (fst (cs ! 0))"
  let ?run = "\<lambda>n. foldl double_add ?t0 (take n (durations cs))"
  let ?starts = "start_times (snd (play_all v (map decoded_chunk cs) s))"
  have formula: "?starts = map ?run [0..<length cs]"
  proof (cases cs)
    case Nil
    then show ?thesis by simp
  next
    case (Cons c rest)
    obtain now1 d1 h1 where c: "c = (now1, d1, h1)" by (cases c)
    let ?s0 = "s\<lparr>nextStartTime := max (nextStartTime s) now1\<rparr>"
    have same: "play_all v (map decoded_chunk cs) ?s0 = play_all v (map decoded_chunk cs) s"
      using Cons c playAudio_raised [OF ctx, of v now1 "Some d1" h1] by simp
    have ctx0: "outputAudioContext ?s0 = Some ctx" using ctx by simp
    have aligned: "\<forall>k < length cs.
        fst (cs ! k) \<le> foldl double_add (nextStartTime ?s0) (take k (durations cs))"
    proof (intro allI impI)
      fix k assume k: "k < length cs"
      show "fst (cs ! k) \<le> foldl double_add (nextStartTime ?s0) (take k (durations cs))"
      proof (cases k)
        case 0
        with Cons c show ?thesis by simp
      next
        case (Suc m)
        with k clock have "fst (cs ! k) \<le> ?run k" by simp
        with Cons c show ?thesis by simp
      qed
    qed
    from play_all_aligned [OF ctx0 aligned, of v] same Cons c show ?thesis by simp
  qed
  have apart: "double_add (?starts ! i) (durations cs ! i) \<le> ?starts ! j"
    if "i < j" "j < length cs" for i j
  proof -
    from that have i: "i < length cs" by simp
    from that have "cs \<noteq> []" by auto
    then have "cs ! 0 \<in> set cs" by simp
    with chunks have "is_double (fst (cs ! 0))" by blast
    with time have t0: "is_double ?t0" "0 \<le> ?t0" by (simp_all add: is_double_max max_def)
    have nonneg: "\<forall>d \<in> set (durations cs). 0 \<le> d"
      using chunks by (simp add: durations_def)
    have "?run (Suc i) \<le> ?run j"
      using t0 nonneg that by (intro running_sum_mono) simp_all
    moreover have "?run (Suc i) = double_add (?run i) (durations cs ! i)"
      using i by (simp add: take_Suc_conv_app_nth durations_def)
    ultimately show ?thesis
      using that i by (simp add: formula)
  qed
  show ?thesis
    using playAudio_decoded [OF ctx, of v now d node] formula apart by blast
qed

text \<open>
  Two runs of the scheduler from an idle instance with an open output context, the clock
  at 0. With durations 0.1, 0.2, 0.2 the third chunk starts at 0.30000000000000004, which
  is not the start of the first chunk plus the sum of the two durations before it. With
  durations 0.1, 0.08, 0.08 the third chunk starts at 0.18, before the exact end (start
  plus duration) of the second.
\<close>

lemma tenth_sums:
  "double_add 0 (3602879701896397 / 36028797018963968) = 3602879701896397 / 36028797018963968"
  "double_add (3602879701896397 / 36028797018963968) (3602879701896397 / 18014398509481984)
     = 1351079888211149 / 4503599627370496"
  "double_add (3602879701896397 / 36028797018963968) (5764607523034235 / 72057594037927936)
     = 3242591731706757 / 18014398509481984"
  "double_add (1351079888211149 / 4503599627370496) (3602879701896397 / 18014398509481984) = 1 / 2"
  by (simp_all add: double_eval)

lemmas schedule_eval =
  ready_def initial_state_def playAudio_begin_def playAudio_resume_def durations_def
  tenth_def fifth_def eight_hundredths_def tenth_sums

theorem gapless_schedule_exact_sum_fails:
  "start_times (snd (play_all LiveService_ts
       (map decoded_chunk [(0, tenth, 12), (0, fifth, 13), (0, fifth, 14)]) ready))
     = [0, tenth, 1351079888211149 / 4503599627370496]
   \<and> start_times (snd (play_all LiveService_ts
       (map decoded_chunk [(0, tenth, 12), (0, fifth, 13), (0, fifth, 14)]) ready)) ! 2
     \<noteq> start_times (snd (play_all LiveService_ts
       (map decoded_chunk [(0, tenth, 12), (0, fifth, 13), (0, fifth, 14)]) ready)) ! 0
       + sum_list (take 2 (durations [(0, tenth, 12), (0, fifth, 13), (0, fifth, 14)]))
   \<and> start_times (snd (play_all LiveService_ts
       (map decoded_chunk [(0, tenth, 12), (0, eight_hundredths, 13), (0, eight_hundredths, 14)]) ready)) ! 2
     < start_times (snd (play_all LiveService_ts
       (map decoded_chunk [(0, tenth, 12), (0, eight_hundredths, 13), (0, eight_hundredths, 14)]) ready)) ! 1
       + durations [(0, tenth, 12), (0, eight_hundredths, 13), (0, eight_hundredths, 14)] ! 1"
proof -
  have a: "start_times (snd (play_all LiveService_ts
       (map decoded_chunk [(0, tenth, 12), (0, fifth, 13), (0, fifth, 14)]) ready))
     = [0, 3602879701896397 / 36028797018963968, 1351079888211149 / 4503599627370496]"
    by (simp add: schedule_eval)
  have b: "start_times (snd (play_all LiveService_ts
       (map decoded_chunk [(0, tenth, 12), (0, eight_hundredths, 13), (0, eight_hundredths, 14)]) ready))
     = [0, 3602879701896397 / 36028797018963968, 3242591731706757 / 18014398509481984]"
    by (simp add: schedule_eval)
  show ?thesis
    unfolding a b
    by (simp add: durations_def tenth_def fifth_def eight_hundredths_def)
qed

theorem gapless_schedule_witness:
  "start_times (snd (play_all Part_000
       (map decoded_chunk [(0, tenth, 12), (0, fifth, 13), (0, fifth, 14)]) ready))
     = [0, tenth, 1351079888211149 / 4503599627370496]
   \<and> double_add
       (start_times (snd (play_all Part_000
          (map decoded_chunk [(0, tenth, 12), (0, fifth, 13), (0, fifth, 14)]) ready)) ! 0)
       (durations [(0, tenth, 12), (0, fifth, 13), (0, fifth, 14)] ! 0)
     \<le> start_times (snd (play_all Part_000
       (map decoded_chunk [(0, tenth, 12), (0, fifth, 13), (0, fifth, 14)]) ready)) ! 2"
proof -
  let ?cs = "[(0, tenth, 12), (0, fifth, 13), (0, fifth, 14)] :: (real \<times> real \<times> handle) list"
  let ?starts = "start_times (snd (play_all Part_000 (map decoded_chunk ?cs) ready))"
  have ctx: "outputAudioContext ready = Some 2" by (simp add: ready_def)
  have time: "is_double (nextStartTime ready) \<and> 0 \<le> nextStartTime ready"
    by (simp add: ready_def initial_state_def is_double_0)
  have chunks: "\<forall>c \<in> set ?cs. is_double (fst c) \<and> 0 \<le> fst (snd c)"
    by (simp add: is_double_0 tenth_def fifth_def)
  have clock: "\<forall>k. 0 < k \<and> k < length ?cs \<longrightarrow>
       fst (?cs ! k)
         \<le> foldl double_add (max (nextStartTime ready) (fst (?cs ! 0))) (take k (durations ?cs))"
    by (auto simp: less_Suc_eq numeral_3_eq_3 schedule_eval)
  have bounded: "foldl double_add (max (nextStartTime ready) (fst (?cs ! 0))) (durations ?cs) < 2 ^ 1024"
    by (simp add: schedule_eval)
  note law = gapless_schedule [OF ctx time chunks clock bounded, of Part_000 0 0 0]
  from law have "?starts
      = map (\<lambda>n. foldl double_add (max (nextStartTime ready) (fst (?cs ! 0)))
                   (take n (durations ?cs)))
          [0..<length ?cs]"
    by blast
  also have "\<dots> = [0, tenth, 1351079888211149 / 4503599627370496]"
    by (simp add: upt_rec numeral_3_eq_3 schedule_eval)
  finally have starts: "?starts = [0, tenth, 1351079888211149 / 4503599627370496]" .
  from law have apart: "\<forall>i j. i < j \<and> j < length ?cs \<longrightarrow>
      double_add (?starts ! i) (durations ?cs ! i) \<le> ?starts ! j"
    by blast
  have "(0 :: nat) < 2 \<and> (2 :: nat) < length ?cs" by simp
  with apart have "double_add (?starts ! 0) (durations ?cs ! 0) \<le> ?starts ! 2" by blast
  with starts show ?thesis by blast
qed

lemma audio_branch_keeps:
  "audio_branch v m t s = (s1, w) \<Longrightarrow>
     sources s1 = sources s \<and> outputAudioContext s1 = outputAudioContext s"
  by (auto simp: audio_branch_def playAudio_begin_def split: if_splits option.splits)

lemma input_branch_keeps:
  "input_branch m s = (s1, e) \<Longrightarrow>
     sources s1 = sources s \<and> outputAudioContext s1 = outputAudioContext s"
  by (auto simp: input_branch_def Let_def split: option.splits)

lemma output_branch_keeps:
  "output_branch m s = (s1, e) \<Longrightarrow>
     sources s1 = sources s \<and> outputAudioContext s1 = outputAudioContext s"
  by (auto simp: output_branch_def Let_def split: option.splits)

lemma turn_branch_keeps:
  "turn_branch v m s = (s1, e) \<Longrightarrow>
     sources s1 = sources s \<and> outputAudioContext s1 = outputAudioContext s"
  by (auto simp: turn_branch_def on_turnComplete_def Let_def split: if_splits)

text \<open>
  C4. \<^verbatim>\<open>stopAllAudio\<close> calls \<^verbatim>\<open>stop()\<close> on every node of the pending set, empties
  the set and sets \<^verbatim>\<open>nextStartTime\<close> to 0. The message handler does so when the message
  carries the interruption flag: when it returns, the set is empty, the time is 0 and
  every node that was pending has been stopped. In both cases a chunk enqueued next on
  the open context starts at the clock of the device (which is never negative), not at
  the old \<^verbatim>\<open>nextStartTime\<close>. (When the same message also carries audio, the
  continuation of its \<^verbatim>\<open>playAudio\<close> is still waiting when the handler returns; it is
  not part of this statement.)
\<close>

theorem stopAll_resets_schedule:
  assumes ctx: "outputAudioContext s = Some ctx"
    and now: "0 \<le> now"
    and int: "interrupted m"
    and reached: "\<not> parts_TypeError v m"
  shows "stopAllAudio s = (s\<lparr>sources := [], nextStartTime := 0\<rparr>, map SourceStop (sources s))
         \<and> start_times (snd (playAudio v (now, Some d, node) (fst (stopAllAudio s)))) = [now]
         \<and> sources (fst (onmessage_sync v m t s)) = []
         \<and> nextStartTime (fst (onmessage_sync v m t s)) = 0
         \<and> set (map SourceStop (sources s)) \<subseteq> set (fst (snd (onmessage_sync v m t s)))
         \<and> start_times (snd (playAudio v (now, Some d, node) (fst (onmessage_sync v m t s)))) = [now]"
proof -
  obtain s1 w where a: "audio_branch v m t s = (s1, w)" by (cases "audio_branch v m t s")
  obtain s2 e2 where b: "input_branch m s1 = (s2, e2)" by (cases "input_branch m s1")
  obtain s3 e3 where c: "output_branch m s2 = (s3, e3)" by (cases "output_branch m s2")
  obtain s4 e4 where u: "turn_branch v m s3 = (s4, e4)" by (cases "turn_branch v m s3")
  have kept: "sources s4 = sources s" "outputAudioContext s4 = Some ctx"
    using audio_branch_keeps [OF a] input_branch_keeps [OF b] output_branch_keeps [OF c]
      turn_branch_keeps [OF u] ctx by simp_all
  have sync: "onmessage_sync v m t s
      = (s4\<lparr>sources := [], nextStartTime := 0\<rparr>, e2 @ e3 @ e4 @ map SourceStop (sources s), w)"
    using a b c u int reached kept
    by (simp add: onmessage_sync_def interrupt_branch_def stopAllAudio_def)
  have "start_times (snd (playAudio v (now, Some d, node) (s\<lparr>sources := [], nextStartTime := 0\<rparr>))) = [now]"
    using ctx now by (simp add: playAudio_begin_def playAudio_resume_def max_def)
  moreover have "start_times (snd (playAudio v (now, Some d, node) (s4\<lparr>sources := [], nextStartTime := 0\<rparr>))) = [now]"
    using kept now by (simp add: playAudio_begin_def playAudio_resume_def max_def)
  ultimately show ?thesis
    by (auto simp: sync stopAllAudio_def)
qed

theorem stopAll_resets_schedule_witness:
  "stopAllAudio listening
     = (listening\<lparr>sources := [], nextStartTime := 0\<rparr>, [SourceStop 10, SourceStop 11])
   \<and> nextStartTime listening = 15 / 2
   \<and> start_times (snd (playAudio LiveService_ts (3, Some 2, 12) (fst (stopAllAudio listening)))) = [3]
   \<and> fst (onmessage_sync LiveService_ts (silent\<lparr>interrupted := True\<rparr>) 3 listening)
       = listening\<lparr>sources := [], nextStartTime := 0\<rparr>
   \<and> fst (snd (onmessage_sync LiveService_ts (silent\<lparr>interrupted := True\<rparr>) 3 listening))
       = [SourceStop 10, SourceStop 11]"
proof -
  have ctx: "outputAudioContext listening = Some 2" by (simp add: listening_def)
  have now: "(0 :: real) \<le> 3" by simp
  have int: "interrupted (silent\<lparr>interrupted := True\<rparr>)" by simp
  have reached: "\<not> parts_TypeError LiveService_ts (silent\<lparr>interrupted := True\<rparr>)"
    by (simp add: parts_TypeError_def)
  have handler: "onmessage_sync LiveService_ts (silent\<lparr>interrupted := True\<rparr>) 3 listening
      = (listening\<lparr>sources := [], nextStartTime := 0\<rparr>, [SourceStop 10, SourceStop 11], False)"
    by (simp add: onmessage_sync_def parts_TypeError_def audio_branch_def input_branch_def
        output_branch_def turn_branch_def interrupt_branch_def stopAllAudio_def
        silent_def listening_def)
  from stopAll_resets_schedule [OF ctx now int reached, of 2 12 3] handler
  show ?thesis by (simp add: listening_def)
qed

section \<open>The session controller\<close>

lemma disconnect_effects:
  "snd (disconnect v s) =
     map SourceStop (sources s) @ release TrackStop (mediaStream s)
     @ release ProcessorDisconnect (scriptProcessor s) @ release ThenClose (sessionPromise s)
     @ release ContextClose (inputAudioContext s) @ release ContextClose (outputAudioContext s)"
  by (simp add: disconnect_def stopAllAudio_def Let_def)

lemma disconnect_state:
  "fst (disconnect v s) =
     (if v = LiveService_ts then s\<lparr>sources := [], nextStartTime := 0, sessionPromise := None\<rparr>
      else s\<lparr>sources := [], nextStartTime := 0, sessionPromise := None, mediaStream := None,
             scriptProcessor := None, inputAudioContext := None, outputAudioContext := None\<rparr>)"
  by (simp add: disconnect_def stopAllAudio_def Let_def)

lemma no_acquire_release: "filter is_acquire (release TrackStop h) = []"
  "filter is_acquire (release ProcessorDisconnect h) = []"
  "filter is_acquire (release ThenClose h) = []"
  "filter is_acquire (release ContextClose h) = []"
  by (cases h; simp add: release_def)+

lemma no_acquire_stops: "filter is_acquire (map SourceStop hs) = []"
  by (induction hs) simp_all

text \<open>
  What holds of two calls of \<^verbatim>\<open>disconnect\<close> in a row in every version and from every
  state: the second call ends in the state the first one ended in; after the first call
  the pending set is empty, the schedule is at 0 and there is no session; neither call
  acquires anything.
\<close>

lemma disconnect_twice_state:
  "fst (disconnect v (fst (disconnect v s))) = fst (disconnect v s)"
  "sources (fst (disconnect v s)) = []"
  "nextStartTime (fst (disconnect v s)) = 0"
  "sessionPromise (fst (disconnect v s)) = None"
  "filter is_acquire (snd (disconnect v s)) = []"
  by (simp_all add: disconnect_state disconnect_effects no_acquire_release no_acquire_stops)

text \<open>
  \<^verbatim>\<open>part_000\<close> and \<^verbatim>\<open>part_001\<close> forget every device in the first call, so the second
  call finds nothing and makes no call at all.
\<close>

lemma disconnect_twice_quiet:
  assumes "v \<noteq> LiveService_ts"
  shows "snd (disconnect v (fst (disconnect v s))) = []"
  using assms by (simp add: disconnect_effects disconnect_state release_def)

text \<open>
  \<^verbatim>\<open>part_000\<close> leaves no promise without a handler, whatever the session promise and
  the \<^verbatim>\<open>close()\<close> calls do.
\<close>

lemma part_000_handles_rejections:
  "close_promises Part_000 earlier es = []"
  "filter is_onError (then_close Part_000 h p c) = []"
  "then_close Part_000 h p c = (case p of Fulfils \<Rightarrow> [SessionClose h] | Rejects \<Rightarrow> [])"
proof -
  show "close_promises Part_000 earlier es = []"
    by (induction "Part_000" earlier es rule: close_promises.induct)
      (simp_all add: close_settles_def split: settled.splits)
  show "filter is_onError (then_close Part_000 h p c) = []"
    by (simp add: then_close_def split: settled.splits)
  show "then_close Part_000 h p c = (case p of Fulfils \<Rightarrow> [SessionClose h] | Rejects \<Rightarrow> [])"
    by (simp add: then_close_def split: settled.splits)
qed

text \<open>
  C7. The claim says that a second \<^verbatim>\<open>disconnect\<close> right after the first ends in the
  same state, raises no error and leaves every device released. In
  \<^verbatim>\<open>liveService.ts\<close> (lines 143-151) the first call resets only \<^verbatim>\<open>sessionPromise\<close>; in
  a running session the second call therefore stops the tracks and disconnects the
  processor again and calls \<^verbatim>\<open>close()\<close> again on both audio contexts, which the first
  call has closed. Each of these two \<^verbatim>\<open>close()\<close> calls returns a promise rejected with
  InvalidStateError, and nothing handles it: two errors are raised, as unhandled
  rejections. The end state of the second call is that of the first. In \<^verbatim>\<open>part_000\<close>
  (190-210) and \<^verbatim>\<open>part_001\<close> (178-196) the first call resets every field and the
  second call makes no call.
\<close>

theorem disconnect_twice_closes_closed_contexts:
  "snd (disconnect LiveService_ts listening)
     = [SourceStop 10, SourceStop 11, TrackStop 3, ProcessorDisconnect 5, ThenClose 4,
        ContextClose 1, ContextClose 2]
   \<and> close_promises LiveService_ts [] (snd (disconnect LiveService_ts listening)) = []
   \<and> fst (disconnect LiveService_ts listening)
     = listening\<lparr>sources := [], nextStartTime := 0, sessionPromise := None\<rparr>
   \<and> snd (disconnect LiveService_ts (fst (disconnect LiveService_ts listening)))
     = [TrackStop 3, ProcessorDisconnect 5, ContextClose 1, ContextClose 2]
   \<and> close_promises LiveService_ts
       (closed_contexts (snd (disconnect LiveService_ts listening)))
       (snd (disconnect LiveService_ts (fst (disconnect LiveService_ts listening))))
     = [Rejection ''AudioContext.close'', Rejection ''AudioContext.close'']
   \<and> fst (disconnect LiveService_ts (fst (disconnect LiveService_ts listening)))
     = fst (disconnect LiveService_ts listening)
   \<and> snd (disconnect Part_000 (fst (disconnect Part_000 listening))) = []
   \<and> snd (disconnect Part_001 (fst (disconnect Part_001 listening))) = []"
proof -
  have first: "snd (disconnect LiveService_ts listening)
      = [SourceStop 10, SourceStop 11, TrackStop 3, ProcessorDisconnect 5, ThenClose 4,
         ContextClose 1, ContextClose 2]"
    by (simp add: disconnect_effects release_def listening_def)
  have once: "fst (disconnect LiveService_ts listening)
      = listening\<lparr>sources := [], nextStartTime := 0, sessionPromise := None\<rparr>"
    by (simp add: disconnect_state)
  have second: "snd (disconnect LiveService_ts (fst (disconnect LiveService_ts listening)))
      = [TrackStop 3, ProcessorDisconnect 5, ContextClose 1, ContextClose 2]"
    by (simp add: disconnect_effects disconnect_state release_def listening_def)
  have same: "fst (disconnect LiveService_ts (fst (disconnect LiveService_ts listening)))
      = fst (disconnect LiveService_ts listening)"
    by (simp add: disconnect_state)
  have others: "snd (disconnect Part_000 (fst (disconnect Part_000 listening))) = []"
    "snd (disconnect Part_001 (fst (disconnect Part_001 listening))) = []"
    by (simp_all add: disconnect_effects disconnect_state release_def listening_def)
  have settle1: "close_promises LiveService_ts []
      [SourceStop 10, SourceStop 11, TrackStop 3, ProcessorDisconnect 5, ThenClose 4,
       ContextClose 1, ContextClose 2] = []"
    by (simp add: close_settles_def)
  have settle2: "close_promises LiveService_ts
      (closed_contexts [SourceStop 10, SourceStop 11, TrackStop 3, ProcessorDisconnect 5,
         ThenClose 4, ContextClose 1, ContextClose 2])
      [TrackStop 3, ProcessorDisconnect 5, ContextClose 1, ContextClose 2]
      = [Rejection ''AudioContext.close'', Rejection ''AudioContext.close'']"
    by (simp add: close_settles_def)
  show ?thesis
    unfolding first second
    using once same [unfolded first second] others settle1 settle2
    by (simp add: first)
qed

text \<open>
  The error callback of \<^verbatim>\<open>liveService.ts\<close> and \<^verbatim>\<open>part_000\<close>: one call of
  \<^verbatim>\<open>onError\<close>, then everything \<^verbatim>\<open>disconnect\<close> does, from every state.
\<close>

lemma onerror_tears_down:
  assumes "v \<noteq> Part_001"
  shows "onerror v s = (fst (disconnect v s), onerror_report v @ snd (disconnect v s))"
    and "filter is_callback (onerror_report v) = filter is_onError (onerror_report v)"
    and "length (filter is_onError (onerror_report v)) = 1"
  using assms by (simp_all add: onerror_def onerror_report_def split_beta)

text \<open>
  C5. The claim says that a session error is reported and followed by the teardown of
  \<^verbatim>\<open>disconnect\<close>. The error callback of \<^verbatim>\<open>part_001\<close> (lines 83-86) reports and
  returns: in a session with two nodes playing and every device open, nothing is stopped,
  released, closed or reset. The callback of \<^verbatim>\<open>part_000\<close> (and of
  \<^verbatim>\<open>liveService.ts\<close>) goes on to \<^verbatim>\<open>disconnect\<close>, which stops the nodes, the track
  and the processor, registers the reaction that closes the session, and closes both
  contexts; the reaction then closes the session.
\<close>

theorem onerror_part_001_keeps_session:
  "onerror Part_001 listening =
     (listening, [Console ''Live API Error:'',
                  OnError ''Network or API error occurred. Please verify your connection.''])
   \<and> fst (onerror Part_000 listening) = fst (disconnect Part_000 listening)
   \<and> snd (onerror Part_000 listening) =
       [Console ''Live API WebSocket Error:'',
        OnError ''Network connection failed. Please check your internet or API key permissions.'',
        SourceStop 10, SourceStop 11, TrackStop 3, ProcessorDisconnect 5, ThenClose 4,
        ContextClose 1, ContextClose 2]
   \<and> then_close Part_000 4 Fulfils False = [SessionClose 4]"
  by (simp add: onerror_def onerror_report_def disconnect_effects disconnect_state split_beta
      listening_def release_def then_close_def)

text \<open>
  \<^verbatim>\<open>liveService.ts\<close> and \<^verbatim>\<open>part_000\<close> test the key themselves. When
  \<^verbatim>\<open>process.env.API_KEY\<close> is read and is not truthy (and, for \<^verbatim>\<open>part_000\<close>, the key
  it looks for on \<^verbatim>\<open>window\<close> is not truthy either), \<^verbatim>\<open>connect\<close> calls \<^verbatim>\<open>onError\<close>
  exactly once, changes no field and opens no audio context, no microphone and no
  session.
\<close>

lemma connect_key_tested:
  assumes "v \<noteq> Part_001"
    and "process_env env = Some k" and "\<not> truthy k"
    and "v = Part_000 \<longrightarrow> \<not> truthy (window_API_KEY env)"
  shows "fst (connect v targetLanguage env s) = s"
    and "snd (connect v targetLanguage env s) = key_missing v"
    and "length (filter is_onError (key_missing v)) = 1"
    and "filter is_acquire (key_missing v) = []"
  using assms by (cases v; simp add: connect_def key_missing_def Let_def)+

text \<open>
  C6. The claim says that \<^verbatim>\<open>connect\<close> without a key calls \<^verbatim>\<open>onError\<close> exactly once
  and opens no audio device and no session. \<^verbatim>\<open>part_001\<close> (lines 23-33) has no test of
  the key: line 26 passes \<^verbatim>\<open>process.env.API_KEY\<close> to the constructor of the library.
  With the empty string as key and a constructor that returns, \<^verbatim>\<open>part_001\<close> opens both
  audio contexts, the microphone and the session, and never calls \<^verbatim>\<open>onError\<close>. On the
  same input \<^verbatim>\<open>liveService.ts\<close> (27-34) and \<^verbatim>\<open>part_000\<close> (26-33) find the key missing:
  they report once and open nothing.
\<close>

theorem connect_part_001_untested_key:
  "connect Part_001 ''Spanish'' (browser_env (Some [])) initial_state
     = (initial_state\<lparr>inputAudioContext := Some 1, outputAudioContext := Some 2,
                       mediaStream := Some 3, sessionPromise := Some 4\<rparr>,
        [ContextOpen 1 16000, ContextOpen 2 24000, MicrophoneOpen 3, LiveConnect 4 ''Spanish''])
   \<and> filter is_onError (snd (connect Part_001 ''Spanish'' (browser_env (Some [])) initial_state)) = []
   \<and> filter is_acquire (snd (connect Part_001 ''Spanish'' (browser_env (Some [])) initial_state))
     = [ContextOpen 1 16000, ContextOpen 2 24000, MicrophoneOpen 3, LiveConnect 4 ''Spanish'']
   \<and> connect LiveService_ts ''Spanish'' (browser_env (Some [])) initial_state
     = (initial_state,
        [Console ''API Key is missing from environment variables (process.env.API_KEY).'',
         OnError ''API Key is missing from environment variables (process.env.API_KEY).''])
   \<and> connect Part_000 ''Spanish'' (browser_env (Some [])) initial_state
     = (initial_state,
        [Console ''API_KEY is not defined in environment variables.'',
         OnError ''API Key missing. Please set API_KEY in your environment settings.'',
         OnStatusChange ''ERROR''])"
proof -
  have opened: "connect Part_001 ''Spanish'' (browser_env (Some [])) initial_state
     = (initial_state\<lparr>inputAudioContext := Some 1, outputAudioContext := Some 2,
                       mediaStream := Some 3, sessionPromise := Some 4\<rparr>,
        [ContextOpen 1 16000, ContextOpen 2 24000, MicrophoneOpen 3, LiveConnect 4 ''Spanish''])"
    by (simp add: connect_def connect_body_def browser_env_def)
  have tested: "connect LiveService_ts ''Spanish'' (browser_env (Some [])) initial_state
     = (initial_state,
        [Console ''API Key is missing from environment variables (process.env.API_KEY).'',
         OnError ''API Key is missing from environment variables (process.env.API_KEY).''])"
    "connect Part_000 ''Spanish'' (browser_env (Some [])) initial_state
     = (initial_state,
        [Console ''API_KEY is not defined in environment variables.'',
         OnError ''API Key missing. Please set API_KEY in your environment settings.'',
         OnStatusChange ''ERROR''])"
    by (simp_all add: connect_def key_missing_def browser_env_def)
  show ?thesis
    unfolding opened tested by simp
qed

end
